theory Spec2Isabelle
  imports Main "HOL-Library.AList"
begin

section \<open>Values of the JavaScript runtime\<close>

text \<open>
  The route handler \<^verbatim>\<open>src/app/api/generate/route.ts\<close> is embedded function by function.
  A string is a \<^typ>\<open>string\<close>, read as the UTF-8 bytes of the text: concatenation,
  \<^verbatim>\<open>split("\n")\<close> and \<^verbatim>\<open>join\<close> act on the bytes as they act on the code units,
  and \<^verbatim>\<open>trim\<close> strips the white space characters in their UTF-8 form.
  A thrown exception or a rejected promise is the \<open>Inl\<close> branch of a sum.
\<close>

datatype error =
    TypeError
  | DraftParseError
  | Rejected string

text \<open>
  \<open>TypeError\<close>: thrown by the runtime (a property of \<^verbatim>\<open>null\<close>, a property created on a
  primitive, \<^verbatim>\<open>new URL\<close> of an invalid address).
  \<open>DraftParseError\<close>: \<^verbatim>\<open>new Error("Failed to parse article response from model")\<close>.
  \<open>Rejected m\<close>: a collaborator's promise rejected with message \<open>m\<close>.
\<close>

datatype json =
    JNull
  | JBool bool
  | JNum string
  | JStr string
  | JArr "json list"
  | JObj "(string \<times> json) list"

text \<open>
  What \<^verbatim>\<open>JSON.parse\<close> returns. A number keeps its lexeme (the handler never computes
  with one); an object is the list of its properties, one per key (\<open>AList.update\<close>
  overwrites the value of a key that is already there, as a repeated key of the source
  text does).
\<close>

subsection \<open>\<^verbatim>\<open>JSON.parse\<close>\<close>

definition json_ws :: "char \<Rightarrow> bool" where
  "json_ws c = (c = CHR '' '' \<or> c = CHR 0x09 \<or> c = CHR 0x0A \<or> c = CHR 0x0D)"

definition skip_ws :: "string \<Rightarrow> string" where
  "skip_ws s = dropWhile json_ws s"

definition char_code :: "char \<Rightarrow> nat" where
  "char_code c = of_char c"

definition is_digit :: "char \<Rightarrow> bool" where
  "is_digit c = (48 \<le> char_code c \<and> char_code c \<le> 57)"

definition hex_digit :: "char \<Rightarrow> nat option" where
  "hex_digit c =
     (if 48 \<le> char_code c \<and> char_code c \<le> 57 then Some (char_code c - 48)
      else if 97 \<le> char_code c \<and> char_code c \<le> 102 then Some (char_code c - 87)
      else if 65 \<le> char_code c \<and> char_code c \<le> 70 then Some (char_code c - 55)
      else None)"

text \<open>
  A \<^verbatim>\<open>\uXXXX\<close> escape denotes one 16-bit code unit. Strings being byte sequences here,
  the unit is written as its UTF-8 bytes.
\<close>

definition code_unit_bytes :: "nat \<Rightarrow> string" where
  "code_unit_bytes n =
     (if n < 0x80 then [char_of n]
      else if n < 0x800 then [char_of (0xC0 + n div 64), char_of (0x80 + n mod 64)]
      else [char_of (0xE0 + n div 4096), char_of (0x80 + (n div 64) mod 64),
            char_of (0x80 + n mod 64)])"

definition simple_escape :: "char \<Rightarrow> char option" where
  "simple_escape e =
     (if e = CHR 0x22 then Some (CHR 0x22)
      else if e = CHR 0x5C then Some (CHR 0x5C)
      else if e = CHR ''/'' then Some (CHR ''/'')
      else if e = CHR ''b'' then Some (CHR 0x08)
      else if e = CHR ''f'' then Some (CHR 0x0C)
      else if e = CHR ''n'' then Some (CHR 0x0A)
      else if e = CHR ''r'' then Some (CHR 0x0D)
      else if e = CHR ''t'' then Some (CHR 0x09)
      else None)"

text \<open>The characters of a string literal after its opening quote, up to the closing one.\<close>

fun parse_chars :: "string \<Rightarrow> string \<Rightarrow> (string \<times> string) option" where
  "parse_chars acc [] = None"
| "parse_chars acc [c] = (if c = CHR 0x22 then Some (acc, []) else None)"
| "parse_chars acc (c # e # r) =
     (if c = CHR 0x22 then Some (acc, e # r)
      else if c = CHR 0x5C then
        (if e = CHR ''u'' then
           (case r of
              h1 # h2 # h3 # h4 # r' \<Rightarrow>
                (case (hex_digit h1, hex_digit h2, hex_digit h3, hex_digit h4) of
                   (Some a, Some b, Some c', Some d) \<Rightarrow>
                     parse_chars (acc @ code_unit_bytes (((a * 16 + b) * 16 + c') * 16 + d)) r'
                 | _ \<Rightarrow> None)
            | _ \<Rightarrow> None)
         else (case simple_escape e of
                 Some x \<Rightarrow> parse_chars (acc @ [x]) r
               | None \<Rightarrow> None))
      else if char_code c < 0x20 then None
      else parse_chars (acc @ [c]) (e # r))"

text \<open>The lexeme of a number: \<^verbatim>\<open>-? (0 | [1-9][0-9]*) (. [0-9]+)? ([eE] [+-]? [0-9]+)?\<close>.\<close>

definition scan_digits :: "string \<Rightarrow> string \<times> string" where
  "scan_digits s = (takeWhile is_digit s, dropWhile is_digit s)"

definition scan_int :: "string \<Rightarrow> (string \<times> string) option" where
  "scan_int s =
     (case s of
        [] \<Rightarrow> None
      | c # r \<Rightarrow>
          if c = CHR ''0'' then Some ([c], r)
          else if is_digit c then Some (c # fst (scan_digits r), snd (scan_digits r))
          else None)"

definition scan_frac :: "string \<Rightarrow> (string \<times> string) option" where
  "scan_frac s =
     (case s of
        c # r \<Rightarrow>
          if c = CHR ''.'' then
            (case scan_digits r of
               ([], _) \<Rightarrow> None
             | (ds, r') \<Rightarrow> Some (c # ds, r'))
          else Some ([], s)
      | [] \<Rightarrow> Some ([], s))"

definition scan_exp :: "string \<Rightarrow> (string \<times> string) option" where
  "scan_exp s =
     (case s of
        c # r \<Rightarrow>
          if c = CHR ''e'' \<or> c = CHR ''E'' then
            (let (sgn, r1) =
               (case r of
                  d # r2 \<Rightarrow> if d = CHR ''+'' \<or> d = CHR ''-'' then ([d], r2) else ([], r)
                | [] \<Rightarrow> ([], r))
             in case scan_digits r1 of
                  ([], _) \<Rightarrow> None
                | (ds, r') \<Rightarrow> Some (c # sgn @ ds, r'))
          else Some ([], s)
      | [] \<Rightarrow> Some ([], s))"

definition scan_number :: "string \<Rightarrow> (string \<times> string) option" where
  "scan_number s =
     (let (sgn, r0) = (case s of c # r \<Rightarrow> if c = CHR ''-'' then ([c], r) else ([], s) | [] \<Rightarrow> ([], s))
      in case scan_int r0 of
           None \<Rightarrow> None
         | Some (i, r1) \<Rightarrow>
             (case scan_frac r1 of
                None \<Rightarrow> None
              | Some (f, r2) \<Rightarrow>
                  (case scan_exp r2 of
                     None \<Rightarrow> None
                   | Some (e, r3) \<Rightarrow> Some (sgn @ i @ f @ e, r3))))"

definition strip_prefix :: "string \<Rightarrow> string \<Rightarrow> string option" where
  "strip_prefix p s = (if take (length p) s = p then Some (drop (length p) s) else None)"

text \<open>
  The recursive descent over values, arrays and objects. The first argument bounds the
  number of nested calls. \<open>JSON_parse\<close> starts it at twice the length of the text plus
  two, which no text exhausts: every second call at the latest consumes a character, and
  a larger bound gives the same result (\<open>JSON_parse_any_fuel\<close> below).
\<close>

fun parse_json :: "nat \<Rightarrow> string \<Rightarrow> (json \<times> string) option"
  and parse_elements :: "nat \<Rightarrow> json list \<Rightarrow> string \<Rightarrow> (json \<times> string) option"
  and parse_members :: "nat \<Rightarrow> (string \<times> json) list \<Rightarrow> string \<Rightarrow> (json \<times> string) option"
where
  "parse_json 0 s = None"
| "parse_json (Suc n) s =
     (case skip_ws s of
        [] \<Rightarrow> None
      | c # r \<Rightarrow>
          if c = CHR ''{'' then
            (case skip_ws r of
               [] \<Rightarrow> None
             | d # r' \<Rightarrow> if d = CHR ''}'' then Some (JObj [], r') else parse_members n [] r)
          else if c = CHR ''['' then
            (case skip_ws r of
               [] \<Rightarrow> None
             | d # r' \<Rightarrow> if d = CHR '']'' then Some (JArr [], r') else parse_elements n [] r)
          else if c = CHR 0x22 then
            (case parse_chars [] r of
               None \<Rightarrow> None
             | Some (str, r') \<Rightarrow> Some (JStr str, r'))
          else if c = CHR ''t'' then map_option (Pair (JBool True)) (strip_prefix ''true'' (c # r))
          else if c = CHR ''f'' then map_option (Pair (JBool False)) (strip_prefix ''false'' (c # r))
          else if c = CHR ''n'' then map_option (Pair JNull) (strip_prefix ''null'' (c # r))
          else (case scan_number (c # r) of
                  None \<Rightarrow> None
                | Some (lexeme, r') \<Rightarrow> Some (JNum lexeme, r')))"
| "parse_elements 0 acc s = None"
| "parse_elements (Suc n) acc s =
     (case parse_json n s of
        None \<Rightarrow> None
      | Some (v, r) \<Rightarrow>
          (case skip_ws r of
             [] \<Rightarrow> None
           | c # r' \<Rightarrow>
               if c = CHR '','' then parse_elements n (acc @ [v]) r'
               else if c = CHR '']'' then Some (JArr (acc @ [v]), r')
               else None))"
| "parse_members 0 acc s = None"
| "parse_members (Suc n) acc s =
     (case skip_ws s of
        [] \<Rightarrow> None
      | q # r \<Rightarrow>
          if q = CHR 0x22 then
            (case parse_chars [] r of
               None \<Rightarrow> None
             | Some (k, r1) \<Rightarrow>
                 (case skip_ws r1 of
                    [] \<Rightarrow> None
                  | c # r2 \<Rightarrow>
                      if c = CHR '':'' then
                        (case parse_json n r2 of
                           None \<Rightarrow> None
                         | Some (v, r3) \<Rightarrow>
                             (case skip_ws r3 of
                                [] \<Rightarrow> None
                              | d # r4 \<Rightarrow>
                                  if d = CHR '','' then parse_members n (AList.update k v acc) r4
                                  else if d = CHR ''}'' then Some (JObj (AList.update k v acc), r4)
                                  else None))
                      else None))
          else None)"

definition JSON_parse :: "string \<Rightarrow> json option" where
  "JSON_parse s =
     (case parse_json (2 * length s + 2) s of
        None \<Rightarrow> None
      | Some (v, r) \<Rightarrow> if skip_ws r = [] then Some v else None)"

subsection \<open>\<^verbatim>\<open>String.prototype.trim\<close>\<close>

text \<open>
  The white space and line terminators of ECMAScript, as UTF-8 byte sequences: U+0009 to
  U+000D, U+0020, U+00A0, U+1680, U+2000 to U+200A, U+2028, U+2029, U+202F, U+205F,
  U+3000 and U+FEFF.
\<close>

definition js_whitespace :: "string list" where
  "js_whitespace =
    [[CHR 0x09], [CHR 0x0A], [CHR 0x0B], [CHR 0x0C], [CHR 0x0D], [CHR 0x20],
     [CHR 0xC2, CHR 0xA0], [CHR 0xE1, CHR 0x9A, CHR 0x80], [CHR 0xE2, CHR 0x80, CHR 0x80],
     [CHR 0xE2, CHR 0x80, CHR 0x81], [CHR 0xE2, CHR 0x80, CHR 0x82],
     [CHR 0xE2, CHR 0x80, CHR 0x83], [CHR 0xE2, CHR 0x80, CHR 0x84],
     [CHR 0xE2, CHR 0x80, CHR 0x85], [CHR 0xE2, CHR 0x80, CHR 0x86],
     [CHR 0xE2, CHR 0x80, CHR 0x87], [CHR 0xE2, CHR 0x80, CHR 0x88],
     [CHR 0xE2, CHR 0x80, CHR 0x89], [CHR 0xE2, CHR 0x80, CHR 0x8A],
     [CHR 0xE2, CHR 0x80, CHR 0xA8], [CHR 0xE2, CHR 0x80, CHR 0xA9],
     [CHR 0xE2, CHR 0x80, CHR 0xAF], [CHR 0xE2, CHR 0x81, CHR 0x9F],
     [CHR 0xE3, CHR 0x80, CHR 0x80], [CHR 0xEF, CHR 0xBB, CHR 0xBF]]"

definition starts_with :: "string \<Rightarrow> string \<Rightarrow> bool" where
  "starts_with s t = (t \<noteq> [] \<and> take (length t) s = t)"

function strip_leading :: "string list \<Rightarrow> string \<Rightarrow> string" where
  "strip_leading ws s =
     (case find (starts_with s) ws of
        None \<Rightarrow> s
      | Some t \<Rightarrow> strip_leading ws (drop (length t) s))"
  by pat_completeness auto

termination
proof (relation "measure (\<lambda>(ws, s). length s)")
  show "wf (measure (\<lambda>(ws, s). length s))" by simp
next
  fix ws :: "string list" and s t :: string
  assume "find (starts_with s) ws = Some t"
  then have "starts_with s t" by (auto simp: find_Some_iff)
  then have "t \<noteq> []" and "take (length t) s = t" by (simp_all add: starts_with_def)
  then have "s \<noteq> []" by auto
  with \<open>t \<noteq> []\<close> show "((ws, drop (length t) s), (ws, s)) \<in> measure (\<lambda>(ws, s). length s)"
    by simp
qed

declare strip_leading.simps [simp del]

definition trim :: "string \<Rightarrow> string" where
  "trim s = rev (strip_leading (map rev js_whitespace) (rev (strip_leading js_whitespace s)))"

subsection \<open>Objects and their properties\<close>

text \<open>
  The parsed draft is a mutable object. An array is an object too: it takes named
  properties beside its elements. The handler reads and writes nine property names, none
  of them an index, \<^verbatim>\<open>length\<close> or a name found on a prototype, so a property read
  is a lookup among the named own properties, \<open>None\<close> standing for \<^verbatim>\<open>undefined\<close>.
\<close>

datatype jsobject =
    PlainObject "(string \<times> json) list"
  | ArrayObject "json list" "(string \<times> json) list"

fun named_props :: "jsobject \<Rightarrow> (string \<times> json) list" where
  "named_props (PlainObject ps) = ps"
| "named_props (ArrayObject xs ps) = ps"

definition get_prop :: "jsobject \<Rightarrow> string \<Rightarrow> json option" where
  "get_prop obj k = map_of (named_props obj) k"

fun set_prop :: "string \<Rightarrow> json \<Rightarrow> jsobject \<Rightarrow> jsobject" where
  "set_prop k v (PlainObject ps) = PlainObject (AList.update k v ps)"
| "set_prop k v (ArrayObject xs ps) = ArrayObject xs (AList.update k v ps)"

text \<open>
  \<^verbatim>\<open>null\<close> has no properties (reading one throws) and a number, string or boolean takes
  none (the module is strict code, so creating one throws).
\<close>

fun as_object :: "json \<Rightarrow> jsobject option" where
  "as_object (JObj ps) = Some (PlainObject ps)"
| "as_object (JArr xs) = Some (ArrayObject xs [])"
| "as_object _ = None"

text \<open>\<^verbatim>\<open>Array.isArray(x) ? x : []\<close> and \<^verbatim>\<open>x ?? ""\<close> on the result of a property read.\<close>

fun array_or_empty :: "json option \<Rightarrow> json" where
  "array_or_empty (Some (JArr xs)) = JArr xs"
| "array_or_empty _ = JArr []"

fun string_if_nullish :: "json option \<Rightarrow> json" where
  "string_if_nullish None = JStr []"
| "string_if_nullish (Some JNull) = JStr []"
| "string_if_nullish (Some v) = v"

definition normalize_list_field :: "string \<Rightarrow> jsobject \<Rightarrow> jsobject" where
  "normalize_list_field k obj = set_prop k (array_or_empty (get_prop obj k)) obj"

definition normalize_text_field :: "string \<Rightarrow> jsobject \<Rightarrow> jsobject" where
  "normalize_text_field k obj = set_prop k (string_if_nullish (get_prop obj k)) obj"

text \<open>Lines 104 to 116 of the handler: the nine assignments, in their order.\<close>

definition normalize_parsed :: "json \<Rightarrow> error + jsobject" where
  "normalize_parsed parsed =
     (case as_object parsed of
        None \<Rightarrow> Inl TypeError
      | Some obj \<Rightarrow>
          Inr (normalize_text_field ''slug''
              (normalize_text_field ''title''
              (normalize_text_field ''excerpt''
              (normalize_text_field ''metaDescription''
              (normalize_text_field ''callToAction''
              (normalize_list_field ''imagePrompts''
              (normalize_list_field ''affiliateBlocks''
              (normalize_list_field ''faqs''
              (normalize_list_field ''sections'' obj))))))))))"

text \<open>The four list fields and the five text fields, in the order of lines 104 to 116.\<close>

definition list_fields :: "string list" where
  "list_fields = [''sections'', ''faqs'', ''affiliateBlocks'', ''imagePrompts'']"

definition text_fields :: "string list" where
  "text_fields = [''callToAction'', ''metaDescription'', ''excerpt'', ''title'', ''slug'']"

section \<open>The data of a request\<close>

text \<open>
  An affiliate entry as it is at run time: \<open>None\<close> is a field that is not there. The
  request schema accepts an entry only with both fields, \<^verbatim>\<open>baseUrl\<close> an address and
  \<^verbatim>\<open>tag\<close> non-empty; the declared type of the configuration lets a platform map to
  \<^verbatim>\<open>undefined\<close>, the \<open>None\<close> of \<open>AffiliateLinkConfig\<close>.
\<close>

record AffiliateEntry =
  baseUrl :: "string option"
  tag :: "string option"

type_synonym AffiliateLinkConfig = "(string \<times> AffiliateEntry option) list"

text \<open>
  The input after \<^verbatim>\<open>requestSchema.parse\<close> (line 123), defaults filled in. Validation
  itself is not embedded: a body the schema rejects never reaches the stages below.
\<close>

record GenerationRequest =
  productUrl :: string
  targetLanguage :: string
  targetRegion :: string
  seoKeywords :: "string list"
  persona :: string
  tone :: string
  minimumWordCount :: int
  includeImages :: bool
  affiliateConfig :: AffiliateLinkConfig
  additionalNotes :: "string option"

record block =
  heading :: string
  body :: string

text \<open>
  \<open>GeneratedArticle\<close> as the handler uses it: sections and FAQs with a heading and a body,
  image prompts that are strings, affiliate blocks passed through untouched.
\<close>

record GeneratedArticle =
  title :: string
  slug :: string
  metaDescription :: string
  excerpt :: string
  sections :: "block list"
  callToAction :: string
  faqs :: "block list"
  affiliateBlocks :: "json list"
  imagePrompts :: "string list"

text \<open>
  The draft read at its declared type: the cast \<^verbatim>\<open>as GeneratedArticle\<close> checks nothing,
  and the stages after the drafting stage are embedded for the drafts that have the
  declared shape. \<open>None\<close>: the draft has another shape.
\<close>

fun as_string :: "json \<Rightarrow> string option" where
  "as_string (JStr s) = Some s"
| "as_string _ = None"

fun as_block :: "json \<Rightarrow> block option" where
  "as_block (JObj ps) =
     Option.bind (Option.bind (map_of ps ''heading'') as_string) (\<lambda>h.
     Option.bind (Option.bind (map_of ps ''body'') as_string) (\<lambda>b.
     Some \<lparr>heading = h, body = b\<rparr>))"
| "as_block _ = None"

fun as_list :: "json \<Rightarrow> json list option" where
  "as_list (JArr xs) = Some xs"
| "as_list _ = None"

definition text_field :: "jsobject \<Rightarrow> string \<Rightarrow> string option" where
  "text_field obj k = Option.bind (get_prop obj k) as_string"

definition list_field :: "jsobject \<Rightarrow> string \<Rightarrow> json list option" where
  "list_field obj k = Option.bind (get_prop obj k) as_list"

definition as_GeneratedArticle :: "jsobject \<Rightarrow> GeneratedArticle option" where
  "as_GeneratedArticle obj =
     Option.bind (text_field obj ''title'') (\<lambda>t.
     Option.bind (text_field obj ''slug'') (\<lambda>sl.
     Option.bind (text_field obj ''metaDescription'') (\<lambda>m.
     Option.bind (text_field obj ''excerpt'') (\<lambda>e.
     Option.bind (Option.bind (list_field obj ''sections'') (\<lambda>xs. those (map as_block xs))) (\<lambda>ss.
     Option.bind (text_field obj ''callToAction'') (\<lambda>c.
     Option.bind (Option.bind (list_field obj ''faqs'') (\<lambda>xs. those (map as_block xs))) (\<lambda>fs.
     Option.bind (list_field obj ''affiliateBlocks'') (\<lambda>bs.
     Option.bind (Option.bind (list_field obj ''imagePrompts'') (\<lambda>xs. those (map as_string xs))) (\<lambda>ps.
     Some \<lparr>title = t, slug = sl, metaDescription = m, excerpt = e, sections = ss,
            callToAction = c, faqs = fs, affiliateBlocks = bs, imagePrompts = ps\<rparr>)))))))))"

section \<open>The affiliate links\<close>

text \<open>
  A parsed address: what precedes the query, the query as its list of name-value pairs,
  and the fragment. Parsing and serialising belong to the platform's \<^verbatim>\<open>URL\<close> class and
  are parameters; \<^verbatim>\<open>searchParams.set\<close> is the URL standard's: the first pair of that
  name takes the value and the later ones are removed, or the pair is appended.
\<close>

record URL =
  location :: string
  searchParams :: "(string \<times> string) list"
  fragment :: string

record URL_class =
  URL_new :: "string \<Rightarrow> URL option"
  URL_toString :: "URL \<Rightarrow> string"

fun set_first :: "string \<Rightarrow> string \<Rightarrow> (string \<times> string) list \<Rightarrow> (string \<times> string) list" where
  "set_first name v [] = []"
| "set_first name v (p # ps) =
     (if fst p = name then (name, v) # filter (\<lambda>q. fst q \<noteq> name) ps
      else p # set_first name v ps)"

definition searchParams_set :: "string \<Rightarrow> string \<Rightarrow> URL \<Rightarrow> URL" where
  "searchParams_set name v url =
     url\<lparr>searchParams :=
       (if name \<in> set (map fst (searchParams url)) then set_first name v (searchParams url)
        else searchParams url @ [(name, v)])\<rparr>"

text \<open>An argument that is \<^verbatim>\<open>undefined\<close> is converted to the string \<^verbatim>\<open>"undefined"\<close>.\<close>

fun String_of :: "string option \<Rightarrow> string" where
  "String_of None = ''undefined''"
| "String_of (Some s) = s"

text \<open>
  The assignment \<^verbatim>\<open>links[platform] = url.toString()\<close> on the object that \<^verbatim>\<open>{}\<close> created.
  An ordinary key becomes an own property, in place when the object already has it. The key
  \<^verbatim>\<open>__proto__\<close> names the accessor that the object inherits: its setter ignores a value
  that is neither an object nor \<^verbatim>\<open>null\<close>, so a string assigned to it creates no property.
\<close>

definition assign_link ::
  "string \<Rightarrow> string \<Rightarrow> (string \<times> string) list \<Rightarrow> (string \<times> string) list" where
  "assign_link platform link links =
     (if platform = ''__proto__'' then links else AList.update platform link links)"

text \<open>
  The loop of \<^verbatim>\<open>buildAffiliateLinks\<close> over \<^verbatim>\<open>Object.entries(affiliateConfig)\<close>, the
  record \<^verbatim>\<open>links\<close> being the accumulator. \<^verbatim>\<open>new URL\<close> throws a \<^verbatim>\<open>TypeError\<close> on a
  string that is no address.
\<close>

fun affiliate_loop ::
  "URL_class \<Rightarrow> string \<Rightarrow> (string \<times> string) list \<Rightarrow> AffiliateLinkConfig \<Rightarrow>
   error + (string \<times> string) list" where
  "affiliate_loop U target links [] = Inr links"
| "affiliate_loop U target links ((platform, config) # rest) =
     (case config of
        None \<Rightarrow> affiliate_loop U target links rest
      | Some c \<Rightarrow>
          (case URL_new U (String_of (baseUrl c)) of
             None \<Rightarrow> Inl TypeError
           | Some url \<Rightarrow>
               affiliate_loop U target
                 (assign_link platform
                    (URL_toString U
                       (searchParams_set ''target'' target
                          (searchParams_set ''ref'' (String_of (tag c)) url)))
                    links)
                 rest))"

definition buildAffiliateLinks ::
  "URL_class \<Rightarrow> AffiliateLinkConfig \<Rightarrow> string \<Rightarrow> error + (string \<times> string) list" where
  "buildAffiliateLinks U config target = affiliate_loop U target [] config"



section \<open>The collaborators\<close>

text \<open>
  The product scraper, the language model client, the spell checker and the image client
  live in \<^verbatim>\<open>src/lib\<close>; the handler sees them as functions that return or reject. They
  are parameters of the model, collected in one record.

  The completion request is the object the handler passes to
  \<^verbatim>\<open>chat.completions.create\<close> (the system message and the temperature are constants);
  its result is \<^verbatim>\<open>choices[0]?.message?.content\<close>, \<open>None\<close> when that is
  \<^verbatim>\<open>null\<close> or \<^verbatim>\<open>undefined\<close>.
  The image client is called once per prompt; the number is the position of the prompt,
  so that two calls with the same prompt may end differently.
\<close>

record 'a spellcheck_result =
  corrected :: 'a
  adjustments :: "string list"

record 'p completion_request =
  model :: string
  instr_targetLanguage :: string
  instr_targetRegion :: string
  instr_persona :: string
  instr_tone :: string
  instr_minimumWordCount :: int
  instr_seoKeywords :: "string list"
  instr_includeImages :: bool
  instr_additionalNotes :: string
  instr_affiliateLinks :: "(string \<times> string) list"
  instr_product :: 'p

record ('p, 'i) env =
  URL_impl :: URL_class
  OPENAI_MODEL :: "string option"
  scrapeProductSnapshot :: "string \<Rightarrow> error + 'p"
  getOpenAIClient :: "error + ('p completion_request \<Rightarrow> error + string option)"
  spellcheckSections :: "string list \<Rightarrow> string \<Rightarrow> error + string list spellcheck_result"
  runSpellcheck :: "string \<Rightarrow> string \<Rightarrow> error + string spellcheck_result"
  generateNanoBananaImages :: "nat \<Rightarrow> string list \<Rightarrow> error + 'i list"

section \<open>The drafting stage\<close>

text \<open>The default of line 94, for a completion without content.\<close>

definition default_content :: string where
  "default_content =
     ''{\"title\":\"\",\"slug\":\"\",\"metaDescription\":\"\",\"excerpt\":\"\",\"sections\":[],\"callToAction\":\"\",\"faqs\":[],\"affiliateBlocks\":[],\"imagePrompts\":[]}''"

text \<open>The argument of \<^verbatim>\<open>openai.chat.completions.create\<close>, lines 59 to 90.\<close>

definition completion_request_of ::
  "('p, 'i) env \<Rightarrow> GenerationRequest \<Rightarrow> (string \<times> string) list \<Rightarrow> 'p \<Rightarrow> 'p completion_request" where
  "completion_request_of env payload links productData =
     \<lparr>model = (case OPENAI_MODEL env of None \<Rightarrow> ''gpt-4o-mini'' | Some m \<Rightarrow> m),
      instr_targetLanguage = targetLanguage payload,
      instr_targetRegion = targetRegion payload,
      instr_persona = persona payload,
      instr_tone = tone payload,
      instr_minimumWordCount = minimumWordCount payload,
      instr_seoKeywords = seoKeywords payload,
      instr_includeImages = includeImages payload,
      instr_additionalNotes = (case additionalNotes payload of None \<Rightarrow> [] | Some notes \<Rightarrow> notes),
      instr_affiliateLinks = links,
      instr_product = productData\<rparr>"

text \<open>
  \<^verbatim>\<open>assembleArticle\<close>: the client, the links (an argument of the call, so built before
  it), the call, the content or its default (\<^verbatim>\<open>??\<close> replaces \<^verbatim>\<open>null\<close> and
  \<^verbatim>\<open>undefined\<close> only), \<^verbatim>\<open>JSON.parse\<close> inside its \<^verbatim>\<open>try\<close>, and the nine
  assignments.
\<close>

definition assembleArticle ::
  "('p, 'i) env \<Rightarrow> string \<Rightarrow> GenerationRequest \<Rightarrow> 'p \<Rightarrow> error + jsobject" where
  "assembleArticle env target payload productData =
     (case getOpenAIClient env of
        Inl e \<Rightarrow> Inl e
      | Inr create \<Rightarrow>
          (case buildAffiliateLinks (URL_impl env) (affiliateConfig payload) target of
             Inl e \<Rightarrow> Inl e
           | Inr links \<Rightarrow>
               (case create (completion_request_of env payload links productData) of
                  Inl e \<Rightarrow> Inl e
                | Inr message_content \<Rightarrow>
                    (case JSON_parse
                       (case message_content of
                          None \<Rightarrow> default_content
                        | Some c \<Rightarrow> trim c) of
                       None \<Rightarrow> Inl DraftParseError
                     | Some parsed \<Rightarrow> normalize_parsed parsed))))"

text \<open>
  The default content parsed and normalised, and the article it is at the declared type.
\<close>

definition default_draft :: jsobject where
  "default_draft =
     PlainObject
       [(''title'', JStr []), (''slug'', JStr []), (''metaDescription'', JStr []),
        (''excerpt'', JStr []), (''sections'', JArr []), (''callToAction'', JStr []),
        (''faqs'', JArr []), (''affiliateBlocks'', JArr []), (''imagePrompts'', JArr [])]"

definition empty_article :: GeneratedArticle where
  "empty_article =
     \<lparr>title = [], slug = [], metaDescription = [], excerpt = [], sections = [],
      callToAction = [], faqs = [], affiliateBlocks = [], imagePrompts = []\<rparr>"

section \<open>The stages after the draft\<close>

subsection \<open>String and array helpers of the runtime\<close>

text \<open>
  \<^verbatim>\<open>s.split(c)\<close> for a one-character separator (never an empty result: a string
  without the separator is the only piece), \<^verbatim>\<open>xs.join(sep)\<close>, and \<^verbatim>\<open>xs[i] ?? d\<close>
  on an array of strings.
\<close>

fun split_on :: "char \<Rightarrow> string \<Rightarrow> string list" where
  "split_on c [] = [[]]"
| "split_on c (x # xs) =
     (if x = c then [] # split_on c xs
      else (case split_on c xs of
              [] \<Rightarrow> [[x]]
            | piece # pieces \<Rightarrow> (x # piece) # pieces))"

fun join :: "string \<Rightarrow> string list \<Rightarrow> string" where
  "join sep [] = []"
| "join sep [x] = x"
| "join sep (x # y # ys) = x @ sep @ join sep (y # ys)"

definition nth_or :: "'a list \<Rightarrow> nat \<Rightarrow> 'a \<Rightarrow> 'a" where
  "nth_or xs i d = (if i < length xs then xs ! i else d)"

definition newline :: char where
  "newline = CHR 0x0A"

subsection \<open>Sections and FAQs\<close>

text \<open>Line 139: a FAQ goes to the spell checker as \<^verbatim>\<open>`${faq.heading}\n${faq.body}`\<close>.\<close>

definition faq_text :: "block \<Rightarrow> string" where
  "faq_text faq = heading faq @ [newline] @ body faq"

text \<open>Lines 144 to 147, the callback of \<^verbatim>\<open>article.sections.map\<close>.\<close>

definition merge_section :: "string list \<Rightarrow> nat \<times> block \<Rightarrow> block" where
  "merge_section correctedSections = (\<lambda>(index, section).
     section\<lparr>body := nth_or correctedSections index (body section)\<rparr>)"

text \<open>
  Lines 149 to 156, the callback of \<^verbatim>\<open>article.faqs.map\<close>: \<^verbatim>\<open>a || b\<close> on strings is
  \<open>b\<close> exactly when \<open>a\<close> is empty.
\<close>

definition merge_faq :: "string list \<Rightarrow> nat \<times> block \<Rightarrow> block" where
  "merge_faq correctedFaqs = (\<lambda>(index, faq).
     (case split_on newline (nth_or correctedFaqs index []) of
        [] \<Rightarrow> faq
      | heading' # bodyParts \<Rightarrow>
          \<lparr>heading = (if heading' \<noteq> [] then heading' else heading faq),
           body = (if join [newline] bodyParts \<noteq> [] then join [newline] bodyParts
                   else body faq)\<rparr>))"

subsection \<open>GEO highlights\<close>

text \<open>Lines 158 to 163; \<^verbatim>\<open>if (input.additionalNotes)\<close> holds for a non-empty string.\<close>

definition geoHighlights_of :: "GenerationRequest \<Rightarrow> string list" where
  "geoHighlights_of input =
     [''Optimized for '' @ targetRegion input @ '' audience'',
      ''Keywords: '' @ join '', '' (seoKeywords input)]
     @ (case additionalNotes input of
          None \<Rightarrow> []
        | Some notes \<Rightarrow> if notes \<noteq> [] then [notes] else [])"

subsection \<open>The image stage\<close>

text \<open>
  One render call: \<^verbatim>\<open>generateNanoBananaImages([prompt]).then((res) => res[0])\<close>. The
  first element of an empty array is \<^verbatim>\<open>undefined\<close>, here \<open>None\<close>.
\<close>

definition render_call :: "('p, 'i) env \<Rightarrow> nat \<times> string \<Rightarrow> error + 'i option" where
  "render_call env = (\<lambda>(index, prompt).
     (case generateNanoBananaImages env index [prompt] of
        Inl e \<Rightarrow> Inl e
      | Inr res \<Rightarrow> Inr (case res of [] \<Rightarrow> None | img # _ \<Rightarrow> Some img)))"

text \<open>
  \<^verbatim>\<open>Promise.all\<close> over settled promises: the values in the order of the promises when
  all are fulfilled, a rejection when one is rejected. The limiter of \<^verbatim>\<open>p-limit\<close>
  decides when a call starts, not how it ends.
\<close>

fun Promise_all :: "(error + 'a) list \<Rightarrow> error + 'a list" where
  "Promise_all [] = Inr []"
| "Promise_all (Inl e # ps) = Inl e"
| "Promise_all (Inr v # ps) =
     (case Promise_all ps of Inl e \<Rightarrow> Inl e | Inr vs \<Rightarrow> Inr (v # vs))"

text \<open>Lines 165 to 180: the \<^verbatim>\<open>catch\<close> leaves \<^verbatim>\<open>generatedImages\<close> at its initial \<^verbatim>\<open>[]\<close>.\<close>

definition image_stage :: "('p, 'i) env \<Rightarrow> GenerationRequest \<Rightarrow> GeneratedArticle \<Rightarrow> 'i option list" where
  "image_stage env input article =
     (if includeImages input \<and> imagePrompts article \<noteq> [] then
        (case Promise_all (map (render_call env) (enumerate 0 (imagePrompts article))) of
           Inl imageError \<Rightarrow> []
         | Inr images \<Rightarrow> images)
      else [])"

subsection \<open>The response\<close>

record ('p, 'i) GenerationResponse =
  product' :: 'p
  article :: GeneratedArticle
  spellingAdjustments :: "string list"
  geoHighlights :: "string list"
  nanoBananaImages :: "'i option list option"

text \<open>
  Lines 131 to 220 of \<^verbatim>\<open>POST\<close>, in the order of the source: sections, FAQs, GEO
  highlights, images, then title, meta description, excerpt and call to action. A
  rejected spell check is thrown to the \<^verbatim>\<open>catch\<close> of line 221, which answers with
  status 400: the \<open>Inl\<close> result.
\<close>

definition orchestrate ::
  "('p, 'i) env \<Rightarrow> GenerationRequest \<Rightarrow> 'p \<Rightarrow> GeneratedArticle \<Rightarrow>
   error + ('p, 'i) GenerationResponse" where
  "orchestrate env input productData draft =
     (case spellcheckSections env (map body (sections draft)) (targetLanguage input) of
        Inl e \<Rightarrow> Inl e
      | Inr sectionCheck \<Rightarrow>
     (case (if faqs draft \<noteq> [] then
              spellcheckSections env (map faq_text (faqs draft)) (targetLanguage input)
            else Inr \<lparr>corrected = [], adjustments = []\<rparr>) of
        Inl e \<Rightarrow> Inl e
      | Inr correctedFaqs \<Rightarrow>
     (let sections' = map (merge_section (corrected sectionCheck)) (enumerate 0 (sections draft));
          faqs' = map (merge_faq (corrected correctedFaqs)) (enumerate 0 (faqs draft));
          highlights = geoHighlights_of input;
          generatedImages = image_stage env input draft
      in
     (case runSpellcheck env (title draft) (targetLanguage input) of
        Inl e \<Rightarrow> Inl e
      | Inr titleCheck \<Rightarrow>
     (case runSpellcheck env (metaDescription draft) (targetLanguage input) of
        Inl e \<Rightarrow> Inl e
      | Inr metaCheck \<Rightarrow>
     (case runSpellcheck env (excerpt draft) (targetLanguage input) of
        Inl e \<Rightarrow> Inl e
      | Inr excerptCheck \<Rightarrow>
     (case runSpellcheck env (callToAction draft) (targetLanguage input) of
        Inl e \<Rightarrow> Inl e
      | Inr ctaCheck \<Rightarrow>
          Inr \<lparr>product' = productData,
               article = draft\<lparr>sections := sections', faqs := faqs',
                               title := trim (corrected titleCheck),
                               metaDescription := trim (corrected metaCheck),
                               excerpt := trim (corrected excerptCheck),
                               callToAction := trim (corrected ctaCheck)\<rparr>,
               spellingAdjustments =
                 adjustments sectionCheck @ adjustments correctedFaqs
                 @ adjustments titleCheck @ adjustments metaCheck
                 @ adjustments excerptCheck @ adjustments ctaCheck,
               geoHighlights = highlights,
               nanoBananaImages =
                 (if generatedImages \<noteq> [] then Some generatedImages else None)\<rparr>)))))))"

text \<open>
  \<^verbatim>\<open>POST\<close> from line 124 on. The outer \<open>None\<close>: the draft does not have the shape of
  \<open>GeneratedArticle\<close>, and what the handler then does depends on what the collaborators
  do with values that are not strings.
\<close>

definition POST ::
  "('p, 'i) env \<Rightarrow> GenerationRequest \<Rightarrow> (error + ('p, 'i) GenerationResponse) option" where
  "POST env input =
     (case scrapeProductSnapshot env (productUrl input) of
        Inl e \<Rightarrow> Some (Inl e)
      | Inr productData \<Rightarrow>
          (case assembleArticle env (productUrl input) input productData of
             Inl e \<Rightarrow> Some (Inl e)
           | Inr parsed \<Rightarrow>
               (case as_GeneratedArticle parsed of
                  None \<Rightarrow> None
                | Some draft \<Rightarrow> Some (orchestrate env input productData draft))))"

section \<open>A reference implementation of the \<^verbatim>\<open>URL\<close> class\<close>

text \<open>
  The theorems below hold for every implementation of \<^verbatim>\<open>new URL\<close> and
  \<^verbatim>\<open>toString\<close>. To run them on examples, here is an implementation for absolute
  addresses that are already in serialised form and whose query has no percent escapes:
  a scheme, a colon, then everything up to the query; the query split at \<^verbatim>\<open>&\<close> and
  \<^verbatim>\<open>=\<close>; the fragment. Serialising writes the query in the
  \<^verbatim>\<open>application/x-www-form-urlencoded\<close> form.
\<close>

definition is_alpha :: "char \<Rightarrow> bool" where
  "is_alpha c = ((65 \<le> char_code c \<and> char_code c \<le> 90) \<or> (97 \<le> char_code c \<and> char_code c \<le> 122))"

definition scheme_char :: "char \<Rightarrow> bool" where
  "scheme_char c = (is_alpha c \<or> is_digit c \<or> c = CHR ''+'' \<or> c = CHR ''-'' \<or> c = CHR ''.'')"

definition has_scheme :: "string \<Rightarrow> bool" where
  "has_scheme s =
     (case takeWhile (\<lambda>c. c \<noteq> CHR '':'') s of
        [] \<Rightarrow> False
      | c # cs \<Rightarrow> is_alpha c \<and> list_all scheme_char cs \<and> dropWhile (\<lambda>c. c \<noteq> CHR '':'') s \<noteq> [])"

definition query_pair :: "string \<Rightarrow> string \<times> string" where
  "query_pair s =
     (takeWhile (\<lambda>c. c \<noteq> CHR ''='') s, drop 1 (dropWhile (\<lambda>c. c \<noteq> CHR ''='') s))"

definition reference_URL_new :: "string \<Rightarrow> URL option" where
  "reference_URL_new s =
     (if has_scheme s then
        (let before_fragment = takeWhile (\<lambda>c. c \<noteq> CHR ''#'') s;
             query = drop 1 (dropWhile (\<lambda>c. c \<noteq> CHR ''?'') before_fragment)
         in Some \<lparr>location = takeWhile (\<lambda>c. c \<noteq> CHR ''?'') before_fragment,
                  searchParams = map query_pair (filter (\<lambda>p. p \<noteq> []) (split_on (CHR ''&'') query)),
                  fragment = dropWhile (\<lambda>c. c \<noteq> CHR ''#'') s\<rparr>)
      else None)"

definition hex_char :: "nat \<Rightarrow> char" where
  "hex_char n = (if n < 10 then char_of (48 + n) else char_of (55 + n))"

definition form_encode_char :: "char \<Rightarrow> string" where
  "form_encode_char c =
     (if is_alpha c \<or> is_digit c \<or> c = CHR ''*'' \<or> c = CHR ''-'' \<or> c = CHR ''.'' \<or> c = CHR ''_''
      then [c]
      else if c = CHR '' '' then ''+''
      else [CHR ''%'', hex_char (char_code c div 16), hex_char (char_code c mod 16)])"

definition form_encode :: "string \<Rightarrow> string" where
  "form_encode s = concat (map form_encode_char s)"

definition reference_URL_toString :: "URL \<Rightarrow> string" where
  "reference_URL_toString url =
     location url
     @ (if searchParams url = [] then []
        else ''?'' @ join ''&'' (map (\<lambda>(k, v). form_encode k @ ''='' @ form_encode v) (searchParams url)))
     @ fragment url"

definition reference_URL :: URL_class where
  "reference_URL = \<lparr>URL_new = reference_URL_new, URL_toString = reference_URL_toString\<rparr>"

section \<open>Example runs\<close>

text \<open>
  Collaborators for the examples: a scraper that always answers, a model that returns one
  fixed draft, a spell checker that changes nothing and reports one line per text, and an
  image client that renders every prompt.
\<close>

definition example_content :: string where
  "example_content =
     ''{\"title\":\" Fone X \",\"slug\":\"fone-x\",\"metaDescription\":\"Review do Fone X\",\"excerpt\":\"Resumo\",\"sections\":[{\"heading\":\"Som\",\"body\":\"Grave forte\"}],\"callToAction\":\"Compre\",\"faqs\":[{\"heading\":\"Vale?\",\"body\":\"Sim\"}],\"imagePrompts\":[\"fone na mesa\",\"fone na caixa\"]}''"

definition example_env :: "(string, string) env" where
  "example_env =
     \<lparr>URL_impl = reference_URL,
      OPENAI_MODEL = None,
      scrapeProductSnapshot = (\<lambda>address. Inr (''snapshot of '' @ address)),
      getOpenAIClient = Inr (\<lambda>request. Inr (Some example_content)),
      spellcheckSections = (\<lambda>blocks language.
        Inr \<lparr>corrected = blocks, adjustments = map (\<lambda>b. ''block: '' @ b) blocks\<rparr>),
      runSpellcheck = (\<lambda>txt language.
        Inr \<lparr>corrected = txt, adjustments = [''text: '' @ txt]\<rparr>),
      generateNanoBananaImages = (\<lambda>index prompts.
        Inr (map (\<lambda>p. ''https://img.example/'' @ p) prompts))\<rparr>"

definition example_request :: GenerationRequest where
  "example_request =
     \<lparr>productUrl = ''https://example.com/p'',
      targetLanguage = ''pt-BR'',
      targetRegion = ''Brazil'',
      seoKeywords = [''melhor pre'' @ [CHR 0xC3, CHR 0xA7] @ ''o'', ''review completo''],
      persona = ''Especialista'',
      tone = ''Conversacional'',
      minimumWordCount = 1800,
      includeImages = True,
      affiliateConfig =
        [(''amazon'', Some \<lparr>baseUrl = Some ''https://amzn.to/x'', tag = Some ''tag123''\<rparr>)],
      additionalNotes = None\<rparr>"

text \<open>The draft of the example run, read at its declared type.\<close>

definition example_draft :: GeneratedArticle where
  "example_draft =
     \<lparr>title = '' Fone X '', slug = ''fone-x'', metaDescription = ''Review do Fone X'',
      excerpt = ''Resumo'',
      sections = [\<lparr>heading = ''Som'', body = ''Grave forte''\<rparr>],
      callToAction = ''Compre'',
      faqs = [\<lparr>heading = ''Vale?'', body = ''Sim''\<rparr>],
      affiliateBlocks = [],
      imagePrompts = [''fone na mesa'', ''fone na caixa'']\<rparr>"

text \<open>
  Variations of the example: an image client whose second call is rejected, the request
  with images switched off, with notes and with empty notes, a model that answers without
  content, and one that answers with the empty string.
\<close>

definition one_failure_env :: "(string, string) env" where
  "one_failure_env =
     example_env\<lparr>generateNanoBananaImages := (\<lambda>index prompts.
       if index = 1 then Inl (Rejected ''render failed'')
       else Inr (map (\<lambda>p. ''https://img.example/'' @ p) prompts))\<rparr>"

definition no_images_request :: GenerationRequest where
  "no_images_request = example_request\<lparr>includeImages := False\<rparr>"

definition notes_request :: GenerationRequest where
  "notes_request = example_request\<lparr>additionalNotes := Some ''Destaque diferenciais locais''\<rparr>"

definition empty_notes_request :: GenerationRequest where
  "empty_notes_request = example_request\<lparr>additionalNotes := Some []\<rparr>"

definition missing_content_env :: "(string, string) env" where
  "missing_content_env = example_env\<lparr>getOpenAIClient := Inr (\<lambda>request. Inr None)\<rparr>"

definition empty_content_env :: "(string, string) env" where
  "empty_content_env = example_env\<lparr>getOpenAIClient := Inr (\<lambda>request. Inr (Some []))\<rparr>"

text \<open>
  Further variations: an image client whose first call is rejected, one that answers every
  call with an empty array, and a model whose draft has a number as title and a string as
  sections.
\<close>

definition first_failure_env :: "(string, string) env" where
  "first_failure_env =
     example_env\<lparr>generateNanoBananaImages := (\<lambda>index prompts.
       if index = 0 then Inl (Rejected ''render failed'')
       else Inr (map (\<lambda>p. ''https://img.example/'' @ p) prompts))\<rparr>"

definition empty_result_env :: "(string, string) env" where
  "empty_result_env = example_env\<lparr>generateNanoBananaImages := (\<lambda>index prompts. Inr [])\<rparr>"

definition wrong_shape_content :: string where
  "wrong_shape_content = ''{\"title\":42,\"sections\":\"none\"}''"

definition wrong_shape_env :: "(string, string) env" where
  "wrong_shape_env = example_env\<lparr>getOpenAIClient := Inr (\<lambda>request. Inr (Some wrong_shape_content))\<rparr>"


text \<open>The response of a run that is known to succeed.\<close>

definition response_of :: "(error + ('p, 'i) GenerationResponse) option \<Rightarrow> ('p, 'i) GenerationResponse" where
  "response_of r = (case r of Some (Inr resp) \<Rightarrow> resp)"

definition succeeded :: "(error + ('p, 'i) GenerationResponse) option \<Rightarrow> bool" where
  "succeeded r = (case r of Some (Inr resp) \<Rightarrow> True | _ \<Rightarrow> False)"

section \<open>The parser's bound is never exhausted\<close>

text \<open>
  Every successful parse consumes at least one character, so the calls nest at most twice
  as deep as the text is long, and beyond that bound the result does not depend on the
  bound.
\<close>

lemma skip_ws_Cons: "skip_ws s = c # t \<Longrightarrow> length t < length s"
proof -
  assume "skip_ws s = c # t"
  then have "length (dropWhile json_ws s) = Suc (length t)" by (simp add: skip_ws_def)
  moreover have "length (dropWhile json_ws s) \<le> length s" by (rule length_dropWhile_le)
  ultimately show ?thesis by simp
qed

lemma strip_prefix_consumes:
  assumes "strip_prefix p s = Some r" and "p \<noteq> []"
  shows "length r < length s"
proof -
  from assms(1) have p: "take (length p) s = p" and r: "r = drop (length p) s"
    by (auto simp: strip_prefix_def split: if_splits)
  from arg_cong [OF p, of length] have "min (length s) (length p) = length p" by simp
  then have "length p \<le> length s" by simp
  moreover from assms(2) have "0 < length p" by simp
  ultimately have "length s - length p < length s" by linarith
  with r show ?thesis by simp
qed

lemma parse_chars_consumes: "parse_chars acc s = Some (k, r) \<Longrightarrow> length r < length s"
proof (induction "length s" arbitrary: acc s rule: less_induct)
  case less
  show ?case
  proof (cases s)
    case Nil
    with less.prems show ?thesis by simp
  next
    case outer: (Cons c s1)
    show ?thesis
    proof (cases s1)
      case Nil
      with outer less.prems show ?thesis by (simp split: if_splits)
    next
      case (Cons e t)
      with outer have s: "s = c # e # t" by simp
      consider (quote) "c = CHR 0x22"
        | (unicode) "c \<noteq> CHR 0x22" "c = CHR 0x5C" "e = CHR ''u''"
        | (escape) "c \<noteq> CHR 0x22" "c = CHR 0x5C" "e \<noteq> CHR ''u''"
        | (plain) "c \<noteq> CHR 0x22" "c \<noteq> CHR 0x5C"
        by blast
      then show ?thesis
      proof cases
        case quote
        with less.prems s show ?thesis by simp
      next
        case unicode
        with less.prems s obtain h1 h2 h3 h4 t' acc' where
          t: "t = h1 # h2 # h3 # h4 # t'" and rec: "parse_chars acc' t' = Some (k, r)"
          by (auto split: list.splits option.splits)
        from t s have "length t' < length s" by simp
        from less.hyps [OF this rec] t s show ?thesis by simp
      next
        case escape
        with less.prems s obtain x where rec: "parse_chars (acc @ [x]) t = Some (k, r)"
          by (auto split: option.splits)
        from s have "length t < length s" by simp
        from less.hyps [OF this rec] s show ?thesis by simp
      next
        case plain
        with less.prems s have rec: "parse_chars (acc @ [c]) (e # t) = Some (k, r)"
          by (auto split: if_splits)
        from s have "length (e # t) < length s" by simp
        from less.hyps [OF this rec] s show ?thesis by simp
      qed
    qed
  qed
qed

lemma scan_int_consumes: "scan_int s = Some (i, r) \<Longrightarrow> length r < length s"
  by (auto simp: scan_int_def scan_digits_def split: list.splits if_splits
      intro: le_imp_less_Suc length_dropWhile_le)

lemma scan_frac_le: "scan_frac s = Some (f, r) \<Longrightarrow> length r \<le> length s"
proof (cases s)
  case Nil
  assume "scan_frac s = Some (f, r)"
  with Nil show ?thesis by (simp add: scan_frac_def)
next
  case (Cons c t)
  assume a: "scan_frac s = Some (f, r)"
  show ?thesis
  proof (cases "c = CHR ''.''")
    case False
    with a Cons show ?thesis by (simp add: scan_frac_def)
  next
    case True
    with a Cons have "r = dropWhile is_digit t"
      by (auto simp: scan_frac_def scan_digits_def split: list.splits)
    moreover have "length (dropWhile is_digit t) \<le> length t" by (rule length_dropWhile_le)
    ultimately show ?thesis using Cons by simp
  qed
qed

lemma scan_exp_le: "scan_exp s = Some (e, r) \<Longrightarrow> length r \<le> length s"
  by (auto simp: scan_exp_def scan_digits_def split: list.splits if_splits prod.splits
      intro: le_SucI length_dropWhile_le)

lemma scan_number_consumes: "scan_number s = Some (l, r) \<Longrightarrow> length r < length s"
proof -
  assume a: "scan_number s = Some (l, r)"
  obtain sgn r0 where s: "(case s of c # t \<Rightarrow> if c = CHR ''-'' then ([c], t) else ([], s) | [] \<Rightarrow> ([], s)) = (sgn, r0)"
    by (cases "(case s of c # t \<Rightarrow> if c = CHR ''-'' then ([c], t) else ([], s) | [] \<Rightarrow> ([], s))") auto
  then have r0: "length r0 \<le> length s" by (auto split: list.splits if_splits)
  from a s obtain i r1 f r2 e where
    "scan_int r0 = Some (i, r1)" "scan_frac r1 = Some (f, r2)" "scan_exp r2 = Some (e, r)"
    by (auto simp: scan_number_def split: option.splits)
  then have "length r1 < length r0" "length r2 \<le> length r1" "length r \<le> length r2"
    by (auto dest: scan_int_consumes scan_frac_le scan_exp_le)
  with r0 show ?thesis by simp
qed

lemma parser_consumes:
  "(\<forall>s v r. parse_json n s = Some (v, r) \<longrightarrow> length r < length s)
   \<and> (\<forall>acc s v r. parse_elements n acc s = Some (v, r) \<longrightarrow> length r < length s)
   \<and> (\<forall>acc s v r. parse_members n acc s = Some (v, r) \<longrightarrow> length r < length s)"
proof (induction n)
  case 0
  show ?case by simp
next
  case (Suc n)
  then have J: "parse_json n s = Some (v, r) \<Longrightarrow> length r < length s" for s v r
    by blast
  from Suc have E: "parse_elements n acc s = Some (v, r) \<Longrightarrow> length r < length s" for acc s v r
    by blast
  from Suc have M: "parse_members n acc s = Some (v, r) \<Longrightarrow> length r < length s" for acc s v r
    by blast
  show ?case
  proof (intro conjI allI impI)
    fix s v r
    assume a: "parse_json (Suc n) s = Some (v, r)"
    then obtain c t where ct: "skip_ws s = c # t"
      by (cases "skip_ws s") auto
    then have t: "length t < length s" by (rule skip_ws_Cons)
    have whole: "length (c # t) \<le> length s"
      using t by simp
    from a ct t whole show "length r < length s"
      by (auto split: if_splits list.splits option.splits
          dest!: E M parse_chars_consumes scan_number_consumes strip_prefix_consumes skip_ws_Cons)
  next
    fix acc s v r
    assume a: "parse_elements (Suc n) acc s = Some (v, r)"
    then obtain w r1 where w: "parse_json n s = Some (w, r1)"
      by (auto split: option.splits)
    then have r1: "length r1 < length s" by (rule J)
    from a w obtain c t where ct: "skip_ws r1 = c # t"
      by (cases "skip_ws r1") auto
    then have t: "length t < length r1" by (rule skip_ws_Cons)
    from a w ct r1 t show "length r < length s"
      by (auto split: if_splits dest: E)
  next
    fix acc s v r
    assume a: "parse_members (Suc n) acc s = Some (v, r)"
    then obtain q t where qt: "skip_ws s = q # t"
      by (cases "skip_ws s") auto
    then have t: "length t < length s" by (rule skip_ws_Cons)
    from a qt obtain k r1 where k: "parse_chars [] t = Some (k, r1)"
      by (auto split: if_splits option.splits)
    then have r1: "length r1 < length t" by (rule parse_chars_consumes)
    from a qt k obtain c r2 where c: "skip_ws r1 = c # r2"
      by (cases "skip_ws r1") (auto split: if_splits)
    then have r2: "length r2 < length r1" by (rule skip_ws_Cons)
    from a qt k c obtain w r3 where w: "parse_json n r2 = Some (w, r3)"
      by (auto split: if_splits option.splits)
    then have r3: "length r3 < length r2" by (rule J)
    from a qt k c w obtain d r4 where d: "skip_ws r3 = d # r4"
      by (cases "skip_ws r3") (auto split: if_splits)
    then have r4: "length r4 < length r3" by (rule skip_ws_Cons)
    from a qt k c w d t r1 r2 r3 r4 show "length r < length s"
      by (auto split: if_splits dest: M)
  qed
qed

lemmas parser_consumes_json = parser_consumes [THEN conjunct1, rule_format]

lemma parse_json_fuel_cong:
  assumes M: "\<And>t. length t < length s \<Longrightarrow> parse_members k [] t = parse_members k' [] t"
    and E: "\<And>t. length t < length s \<Longrightarrow> parse_elements k [] t = parse_elements k' [] t"
  shows "parse_json (Suc k) s = parse_json (Suc k') s"
proof (cases "skip_ws s")
  case Nil
  then show ?thesis by simp
next
  case (Cons c t)
  then have "length t < length s" by (rule skip_ws_Cons)
  then have "parse_members k [] t = parse_members k' [] t"
    and "parse_elements k [] t = parse_elements k' [] t"
    by (rule M, rule E)
  with Cons show ?thesis by (simp split: list.splits)
qed

lemma parse_elements_fuel_cong:
  assumes J: "parse_json k s = parse_json k' s"
    and E: "\<And>acc' t. length t + 2 \<le> length s \<Longrightarrow> parse_elements k acc' t = parse_elements k' acc' t"
  shows "parse_elements (Suc k) acc s = parse_elements (Suc k') acc s"
proof (cases "parse_json k' s")
  case None
  with J show ?thesis by simp
next
  case (Some result)
  obtain v r where result: "result = (v, r)" by (cases result)
  with Some have "length r < length s" by (simp add: parser_consumes_json)
  show ?thesis
  proof (cases "skip_ws r")
    case Nil
    with J Some result show ?thesis by simp
  next
    case (Cons c t)
    then have "length t < length r" by (rule skip_ws_Cons)
    with \<open>length r < length s\<close> have "length t + 2 \<le> length s" by simp
    then have "parse_elements k (acc @ [v]) t = parse_elements k' (acc @ [v]) t" by (rule E)
    with J Some result Cons show ?thesis by simp
  qed
qed

lemma parse_members_fuel_cong:
  assumes J: "\<And>t. length t + 2 \<le> length s \<Longrightarrow> parse_json k t = parse_json k' t"
    and M: "\<And>acc' t. length t + 2 \<le> length s \<Longrightarrow> parse_members k acc' t = parse_members k' acc' t"
  shows "parse_members (Suc k) acc s = parse_members (Suc k') acc s"
proof (cases "skip_ws s")
  case Nil
  then show ?thesis by simp
next
  case outer: (Cons q t)
  then have t: "length t < length s" by (rule skip_ws_Cons)
  show ?thesis
  proof (cases "parse_chars [] t")
    case None
    with outer show ?thesis by simp
  next
    case (Some key)
    obtain key_name r1 where key: "key = (key_name, r1)" by (cases key)
    with Some have r1: "length r1 < length t" by (simp add: parse_chars_consumes)
    show ?thesis
    proof (cases "skip_ws r1")
      case Nil
      with outer Some key show ?thesis by simp
    next
      case colon: (Cons c r2)
      then have r2: "length r2 < length r1" by (rule skip_ws_Cons)
      with t r1 have "length r2 + 2 \<le> length s" by simp
      then have json: "parse_json k r2 = parse_json k' r2" by (rule J)
      show ?thesis
      proof (cases "parse_json k' r2")
        case None
        with outer Some key colon json show ?thesis by simp
      next
        case parsed: (Some result)
        obtain v r3 where result: "result = (v, r3)" by (cases result)
        with parsed have r3: "length r3 < length r2" by (simp add: parser_consumes_json)
        show ?thesis
        proof (cases "skip_ws r3")
          case Nil
          with outer Some key colon json parsed result show ?thesis by simp
        next
          case (Cons d r4)
          then have "length r4 < length r3" by (rule skip_ws_Cons)
          with t r1 r2 r3 have "length r4 + 2 \<le> length s" by simp
          then have "parse_members k (AList.update key_name v acc) r4
                     = parse_members k' (AList.update key_name v acc) r4"
            by (rule M)
          with outer Some key colon json parsed result Cons show ?thesis by simp
        qed
      qed
    qed
  qed
qed

lemma fuel_step:
  "(\<forall>s. 2 * length s + 2 \<le> n \<longrightarrow> parse_json (Suc n) s = parse_json n s)
   \<and> (\<forall>acc s. 2 * length s + 3 \<le> n \<longrightarrow> parse_elements (Suc n) acc s = parse_elements n acc s)
   \<and> (\<forall>acc s. 2 * length s + 3 \<le> n \<longrightarrow> parse_members (Suc n) acc s = parse_members n acc s)"
proof (induction n)
  case 0
  show ?case by simp
next
  case (Suc m)
  then have J: "2 * length s + 2 \<le> m \<Longrightarrow> parse_json (Suc m) s = parse_json m s" for s
    by blast
  from Suc have E: "2 * length s + 3 \<le> m \<Longrightarrow> parse_elements (Suc m) acc s = parse_elements m acc s"
    for acc s by blast
  from Suc have M: "2 * length s + 3 \<le> m \<Longrightarrow> parse_members (Suc m) acc s = parse_members m acc s"
    for acc s by blast
  show ?case
  proof (intro conjI allI impI)
    fix s :: string
    assume "2 * length s + 2 \<le> Suc m"
    then show "parse_json (Suc (Suc m)) s = parse_json (Suc m) s"
      by (intro parse_json_fuel_cong M E) simp_all
  next
    fix acc and s :: string
    assume "2 * length s + 3 \<le> Suc m"
    then show "parse_elements (Suc (Suc m)) acc s = parse_elements (Suc m) acc s"
      by (intro parse_elements_fuel_cong J E) simp_all
  next
    fix acc and s :: string
    assume "2 * length s + 3 \<le> Suc m"
    then show "parse_members (Suc (Suc m)) acc s = parse_members (Suc m) acc s"
      by (intro parse_members_fuel_cong J M) simp_all
  qed
qed

lemma parse_json_more_fuel:
  "2 * length s + 2 \<le> n \<Longrightarrow> parse_json (n + k) s = parse_json n s"
proof (induction k)
  case 0
  show ?case by simp
next
  case (Suc k)
  then have "2 * length s + 2 \<le> n + k" by simp
  with fuel_step [of "n + k"] have "parse_json (Suc (n + k)) s = parse_json (n + k) s" by blast
  with Suc show ?case by simp
qed

lemma JSON_parse_any_fuel:
  assumes "2 * length s + 2 \<le> n"
  shows "JSON_parse s =
           (case parse_json n s of
              None \<Rightarrow> None
            | Some (v, r) \<Rightarrow> if skip_ws r = [] then Some v else None)"
proof -
  from assms obtain k where "n = (2 * length s + 2) + k"
    using le_Suc_ex by blast
  then have "parse_json n s = parse_json (2 * length s + 2) s"
    using parse_json_more_fuel [of s "2 * length s + 2" k] by simp
  then show ?thesis by (simp add: JSON_parse_def)
qed

section \<open>Facts about the stages\<close>

lemma succeeded_response: "succeeded r \<Longrightarrow> r = Some (Inr (response_of r))"
  by (auto simp: succeeded_def response_of_def split: option.splits sum.splits)

lemma POST_Inr_cases:
  assumes "POST env input = Some (Inr resp)"
  obtains productData parsed draft where
    "scrapeProductSnapshot env (productUrl input) = Inr productData"
    "assembleArticle env (productUrl input) input productData = Inr parsed"
    "as_GeneratedArticle parsed = Some draft"
    "orchestrate env input productData draft = Inr resp"
  using assms by (auto simp: POST_def split: sum.splits option.splits)

lemma POST_succeeds:
  assumes "scrapeProductSnapshot env (productUrl input) = Inr productData"
    and "assembleArticle env (productUrl input) input productData = Inr parsed"
    and "as_GeneratedArticle parsed = Some draft"
    and "orchestrate env input productData draft = Inr resp"
  shows "POST env input = Some (Inr resp)"
  using assms by (simp add: POST_def)

lemma orchestrate_geoHighlights:
  "orchestrate env input productData draft = Inr resp \<Longrightarrow> geoHighlights resp = geoHighlights_of input"
  by (auto simp: orchestrate_def Let_def split: sum.splits if_splits)

lemma orchestrate_nanoBananaImages:
  "orchestrate env input productData draft = Inr resp \<Longrightarrow>
   nanoBananaImages resp =
     (if image_stage env input draft \<noteq> [] then Some (image_stage env input draft) else None)"
  by (auto simp: orchestrate_def Let_def split: sum.splits if_splits)

lemma orchestrate_Inr_cases:
  assumes "orchestrate env input productData draft = Inr resp"
  obtains sectionCheck faqCheck titleCheck metaCheck excerptCheck ctaCheck where
    "spellcheckSections env (map body (sections draft)) (targetLanguage input) = Inr sectionCheck"
    "(if faqs draft = [] then Inr \<lparr>corrected = [], adjustments = []\<rparr>
      else spellcheckSections env (map faq_text (faqs draft)) (targetLanguage input)) = Inr faqCheck"
    "runSpellcheck env (title draft) (targetLanguage input) = Inr titleCheck"
    "runSpellcheck env (metaDescription draft) (targetLanguage input) = Inr metaCheck"
    "runSpellcheck env (excerpt draft) (targetLanguage input) = Inr excerptCheck"
    "runSpellcheck env (callToAction draft) (targetLanguage input) = Inr ctaCheck"
    "spellingAdjustments resp =
       adjustments sectionCheck @ adjustments faqCheck @ adjustments titleCheck
       @ adjustments metaCheck @ adjustments excerptCheck @ adjustments ctaCheck"
    "article resp =
       draft\<lparr>sections := map (merge_section (corrected sectionCheck)) (enumerate 0 (sections draft)),
             faqs := map (merge_faq (corrected faqCheck)) (enumerate 0 (faqs draft)),
             title := trim (corrected titleCheck),
             metaDescription := trim (corrected metaCheck),
             excerpt := trim (corrected excerptCheck),
             callToAction := trim (corrected ctaCheck)\<rparr>"
  using assms
  by (auto simp: orchestrate_def Let_def split: sum.splits if_splits)

lemma orchestrate_succeeds:
  assumes "spellcheckSections env (map body (sections draft)) (targetLanguage input) = Inr sectionCheck"
    and "(if faqs draft = [] then Inr \<lparr>corrected = [], adjustments = []\<rparr>
          else spellcheckSections env (map faq_text (faqs draft)) (targetLanguage input)) = Inr faqCheck"
    and "runSpellcheck env (title draft) (targetLanguage input) = Inr titleCheck"
    and "runSpellcheck env (metaDescription draft) (targetLanguage input) = Inr metaCheck"
    and "runSpellcheck env (excerpt draft) (targetLanguage input) = Inr excerptCheck"
    and "runSpellcheck env (callToAction draft) (targetLanguage input) = Inr ctaCheck"
  shows "\<exists>resp. orchestrate env input productData draft = Inr resp"
  using assms
  by (auto simp: orchestrate_def Let_def split: sum.splits if_splits)

text \<open>Sections and FAQs keep their number, and sections their headings.\<close>

lemma response_sections_and_faqs_count:
  assumes "orchestrate env input productData draft = Inr resp"
  shows "length (sections (article resp)) = length (sections draft)"
    and "length (faqs (article resp)) = length (faqs draft)"
    and "map heading (sections (article resp)) = map heading (sections draft)"
proof -
  have "map heading (map (merge_section cs) (enumerate n xs)) = map heading xs" for cs n xs
    by (induction xs arbitrary: n) (simp_all add: merge_section_def)
  with assms show "length (sections (article resp)) = length (sections draft)"
    and "length (faqs (article resp)) = length (faqs draft)"
    and "map heading (sections (article resp)) = map heading (sections draft)"
    by (auto elim!: orchestrate_Inr_cases)
qed

text \<open>The FAQs of the response are the FAQs of the draft, each one merged as above.\<close>

lemma response_faqs:
  assumes "orchestrate env input productData draft = Inr resp"
  shows "\<exists>faqCheck.
           (if faqs draft = [] then Inr \<lparr>corrected = [], adjustments = []\<rparr>
            else spellcheckSections env (map faq_text (faqs draft)) (targetLanguage input))
           = Inr faqCheck
         \<and> faqs (article resp) = map (merge_faq (corrected faqCheck)) (enumerate 0 (faqs draft))"
  using assms by (rule orchestrate_Inr_cases) auto

lemma assembleArticle_images_irrelevant:
  "assembleArticle (env\<lparr>generateNanoBananaImages := g\<rparr>) target payload productData
   = assembleArticle env target payload productData"
  by (simp add: assembleArticle_def completion_request_of_def cong: sum.case_cong)

subsection \<open>The image stage\<close>

lemma Promise_all_Inl:
  "Inl e \<in> set ps \<Longrightarrow> \<exists>e'. Promise_all ps = Inl e'"
  by (induction ps rule: Promise_all.induct) (auto split: sum.splits)

lemma Promise_all_map_Inr: "Promise_all (map Inr vs) = Inr vs"
  by (induction vs) simp_all

lemma Promise_all_Inr_D: "Promise_all ps = Inr vs \<Longrightarrow> ps = map Inr vs"
  by (induction ps arbitrary: vs rule: Promise_all.induct) (auto split: sum.splits)

lemma Promise_all_Inr: "Promise_all ps = Inr vs \<longleftrightarrow> ps = map Inr vs"
  using Promise_all_map_Inr Promise_all_Inr_D by blast

lemma Promise_all_cases:
  "(\<exists>e. Promise_all ps = Inl e \<and> Inl e \<in> set ps) \<or> (\<exists>vs. Promise_all ps = Inr vs \<and> ps = map Inr vs)"
  by (induction ps rule: Promise_all.induct) (auto split: sum.splits)

lemma render_call_fails:
  "generateNanoBananaImages env k [p] = Inl e \<Longrightarrow> render_call env (k, p) = Inl e"
  by (simp add: render_call_def)

lemma render_call_Inr_iff:
  "(\<exists>v. render_call env (k, p) = Inr v) \<longleftrightarrow> (\<exists>res. generateNanoBananaImages env k [p] = Inr res)"
  by (auto simp: render_call_def split: sum.splits)

lemma render_call_Inr_D:
  "render_call env (k, p) = Inr v \<Longrightarrow>
   \<exists>res. generateNanoBananaImages env k [p] = Inr res
         \<and> v = (case res of [] \<Rightarrow> None | img # _ \<Rightarrow> Some img)"
  by (auto simp: render_call_def split: sum.splits)

lemma image_stage_failed_call:
  assumes "k < length (imagePrompts draft)"
    and "generateNanoBananaImages env k [imagePrompts draft ! k] = Inl e"
  shows "image_stage env input draft = []"
proof -
  have "(k, imagePrompts draft ! k) \<in> set (enumerate 0 (imagePrompts draft))"
    using assms(1) by (simp add: in_set_enumerate_eq)
  then have "render_call env (k, imagePrompts draft ! k)
             \<in> set (map (render_call env) (enumerate 0 (imagePrompts draft)))"
    by simp
  then have "Inl e \<in> set (map (render_call env) (enumerate 0 (imagePrompts draft)))"
    using render_call_fails [OF assms(2)] by simp
  then obtain e' where
    "Promise_all (map (render_call env) (enumerate 0 (imagePrompts draft))) = Inl e'"
    using Promise_all_Inl by blast
  then show ?thesis by (simp add: image_stage_def)
qed

lemma image_stage_off: "\<not> includeImages input \<Longrightarrow> image_stage env input draft = []"
  by (simp add: image_stage_def)

lemma image_stage_no_prompts: "imagePrompts draft = [] \<Longrightarrow> image_stage env input draft = []"
  by (simp add: image_stage_def)

lemma image_stage_nonempty_iff:
  "image_stage env input draft \<noteq> [] \<longleftrightarrow>
     includeImages input \<and> imagePrompts draft \<noteq> []
     \<and> (\<forall>k<length (imagePrompts draft).
          \<exists>res. generateNanoBananaImages env k [imagePrompts draft ! k] = Inr res)"
  (is "?L \<longleftrightarrow> ?R")
proof
  let ?calls = "map (render_call env) (enumerate 0 (imagePrompts draft))"
  assume L: ?L
  then have on: "includeImages input" "imagePrompts draft \<noteq> []"
    by (auto simp: image_stage_def split: if_splits)
  from L on obtain vs where "Promise_all ?calls = Inr vs"
    by (auto simp: image_stage_def split: sum.splits)
  then have calls: "?calls = map Inr vs" by (rule Promise_all_Inr_D)
  have "\<exists>res. generateNanoBananaImages env k [imagePrompts draft ! k] = Inr res"
    if "k < length (imagePrompts draft)" for k
  proof -
    from calls have "?calls ! k = map Inr vs ! k" by simp
    moreover from calls have "length vs = length (imagePrompts draft)"
      by (metis length_map length_enumerate)
    ultimately have "render_call env (k, imagePrompts draft ! k) = Inr (vs ! k)"
      using that by (simp add: nth_enumerate_eq)
    then show ?thesis using render_call_Inr_iff by blast
  qed
  with on show ?R by blast
next
  let ?calls = "map (render_call env) (enumerate 0 (imagePrompts draft))"
  assume R: ?R
  have "Inl e \<notin> set ?calls" for e
  proof
    assume "Inl e \<in> set ?calls"
    then obtain k p where kp: "(k, p) \<in> set (enumerate 0 (imagePrompts draft))"
      and bad: "render_call env (k, p) = Inl e"
      by auto
    from kp have "k < length (imagePrompts draft)" "p = imagePrompts draft ! k"
      by (auto simp: in_set_enumerate_eq)
    with R obtain res where "generateNanoBananaImages env k [p] = Inr res" by blast
    with bad show False by (simp add: render_call_def)
  qed
  with Promise_all_cases [of ?calls] obtain vs where
    vs: "Promise_all ?calls = Inr vs" "?calls = map Inr vs"
    by blast
  from vs(2) have "length vs = length (imagePrompts draft)"
    by (metis length_map length_enumerate)
  with R have "vs \<noteq> []" by auto
  with R vs(1) show ?L by (simp add: image_stage_def)
qed

lemma image_stage_entries:
  assumes "image_stage env input draft \<noteq> []"
  shows "length (image_stage env input draft) = length (imagePrompts draft)
         \<and> (\<forall>k<length (imagePrompts draft).
               \<exists>res. generateNanoBananaImages env k [imagePrompts draft ! k] = Inr res
                 \<and> image_stage env input draft ! k =
                     (case res of [] \<Rightarrow> None | img # _ \<Rightarrow> Some img))"
proof -
  let ?calls = "map (render_call env) (enumerate 0 (imagePrompts draft))"
  from assms obtain vs where all: "Promise_all ?calls = Inr vs"
    and stage: "image_stage env input draft = vs"
    by (auto simp: image_stage_def split: if_splits sum.splits)
  from all have calls: "?calls = map Inr vs" by (rule Promise_all_Inr_D)
  then have len: "length vs = length (imagePrompts draft)"
    by (metis length_map length_enumerate)
  have "\<exists>res. generateNanoBananaImages env k [imagePrompts draft ! k] = Inr res
          \<and> vs ! k = (case res of [] \<Rightarrow> None | img # _ \<Rightarrow> Some img)"
    if "k < length (imagePrompts draft)" for k
  proof -
    from calls have "?calls ! k = map Inr vs ! k" by simp
    with that len have "render_call env (k, imagePrompts draft ! k) = Inr (vs ! k)"
      by (simp add: nth_enumerate_eq)
    then show ?thesis by (rule render_call_Inr_D)
  qed
  with len stage show ?thesis by simp
qed

subsection \<open>The example runs\<close>

lemma example_run_succeeded: "succeeded (POST example_env example_request)"
  by code_simp

lemma notes_run_succeeded: "succeeded (POST example_env notes_request)"
  by code_simp

lemma empty_notes_run_succeeded: "succeeded (POST example_env empty_notes_request)"
  by code_simp

lemma example_scrape:
  "scrapeProductSnapshot example_env (productUrl example_request) = Inr pd
   \<longleftrightarrow> pd = ''snapshot of https://example.com/p''"
  by (auto simp: example_env_def example_request_def)

lemma example_draft_eval:
  "(case assembleArticle example_env (productUrl example_request) example_request
           ''snapshot of https://example.com/p'' of
      Inl e \<Rightarrow> None
    | Inr parsed \<Rightarrow> as_GeneratedArticle parsed) = Some example_draft"
  by code_simp

lemma example_draft_unique:
  assumes "scrapeProductSnapshot example_env (productUrl example_request) = Inr pd"
    and "assembleArticle example_env (productUrl example_request) example_request pd = Inr parsed"
    and "as_GeneratedArticle parsed = Some draft"
  shows "draft = example_draft"
  using assms example_draft_eval by (simp add: example_scrape)

lemma example_image_stage:
  "image_stage example_env example_request example_draft =
     [Some ''https://img.example/fone na mesa'', Some ''https://img.example/fone na caixa'']"
  by code_simp

lemma no_images_run_succeeded: "succeeded (POST example_env no_images_request)"
  by code_simp

lemma one_failure_draft:
  "\<exists>parsed. assembleArticle one_failure_env (productUrl example_request) example_request
               ''snapshot of https://example.com/p'' = Inr parsed
           \<and> as_GeneratedArticle parsed = Some example_draft"
  using example_draft_eval
  by (simp add: one_failure_env_def assembleArticle_images_irrelevant split: sum.splits)

lemma one_failure_run_succeeded: "succeeded (POST one_failure_env example_request)"
  by code_simp

section \<open>C1: one failed render call among several\<close>

text \<open>
  Claim C1, as the code has it. When exactly one of at least two render calls is rejected
  and the others return, the response has no \<^verbatim>\<open>nanoBananaImages\<close> field: the images
  of the calls that returned are discarded with the batch.
\<close>

theorem single_render_failure_discards_all_images:
  assumes run: "POST env input = Some (Inr resp)"
    and scrape: "scrapeProductSnapshot env (productUrl input) = Inr productData"
    and parsed: "assembleArticle env (productUrl input) input productData = Inr parsed"
    and draft: "as_GeneratedArticle parsed = Some draft"
    and requested: "includeImages input"
    and many: "2 \<le> length (imagePrompts draft)"
    and call: "k < length (imagePrompts draft)"
    and failed: "generateNanoBananaImages env k [imagePrompts draft ! k] = Inl e"
    and others: "\<forall>j<length (imagePrompts draft). j \<noteq> k \<longrightarrow>
                   (\<exists>res. generateNanoBananaImages env j [imagePrompts draft ! j] = Inr res)"
  shows "nanoBananaImages resp = None"
proof -
  from run scrape parsed draft have "orchestrate env input productData draft = Inr resp"
    by (simp add: POST_def)
  then have "nanoBananaImages resp =
      (if image_stage env input draft \<noteq> [] then Some (image_stage env input draft) else None)"
    by (rule orchestrate_nanoBananaImages)
  moreover have "image_stage env input draft = []"
    using call failed by (rule image_stage_failed_call)
  ultimately show ?thesis by simp
qed

theorem single_render_failure_discards_all_images_witness:
  "POST one_failure_env example_request
     = Some (Inr (response_of (POST one_failure_env example_request)))
   \<and> length (imagePrompts example_draft) = 2
   \<and> generateNanoBananaImages one_failure_env 0 [imagePrompts example_draft ! 0]
       = Inr [''https://img.example/fone na mesa'']
   \<and> generateNanoBananaImages one_failure_env 1 [imagePrompts example_draft ! 1]
       = Inl (Rejected ''render failed'')
   \<and> nanoBananaImages (response_of (POST one_failure_env example_request)) = None"
proof -
  have run: "POST one_failure_env example_request
             = Some (Inr (response_of (POST one_failure_env example_request)))"
    using one_failure_run_succeeded by (rule succeeded_response)
  obtain parsed where
    parsed: "assembleArticle one_failure_env (productUrl example_request) example_request
               ''snapshot of https://example.com/p'' = Inr parsed"
    and draft: "as_GeneratedArticle parsed = Some example_draft"
    using one_failure_draft by blast
  have scrape: "scrapeProductSnapshot one_failure_env (productUrl example_request)
                = Inr ''snapshot of https://example.com/p''"
    by (simp add: one_failure_env_def example_env_def example_request_def)
  have requested: "includeImages example_request"
    by (simp add: example_request_def)
  have many: "2 \<le> length (imagePrompts example_draft)"
    and call: "1 < length (imagePrompts example_draft)"
    and two: "length (imagePrompts example_draft) = 2"
    by (simp_all add: example_draft_def)
  have first: "generateNanoBananaImages one_failure_env 0 [imagePrompts example_draft ! 0]
                = Inr [''https://img.example/fone na mesa'']"
    by (simp add: one_failure_env_def example_draft_def)
  have failed: "generateNanoBananaImages one_failure_env 1 [imagePrompts example_draft ! 1]
                = Inl (Rejected ''render failed'')"
    by (simp add: one_failure_env_def)
  have others: "\<forall>j<length (imagePrompts example_draft). j \<noteq> 1 \<longrightarrow>
      (\<exists>res. generateNanoBananaImages one_failure_env j [imagePrompts example_draft ! j] = Inr res)"
    by (simp add: one_failure_env_def)
  show ?thesis
    using run two first failed
      single_render_failure_discards_all_images
        [OF run scrape parsed draft requested many call failed others]
    by simp
qed

text \<open>
  Claim C1 as stated fails: two prompts, the first rendered, the second rejected, and the
  response carries no image list, so not the one image that was rendered.
\<close>

theorem partial_failure_keeps_no_image:
  "map_option (map_sum id (imagePrompts \<circ> article)) (POST one_failure_env example_request)
     = Some (Inr [''fone na mesa'', ''fone na caixa''])
   \<and> generateNanoBananaImages one_failure_env 0 [''fone na mesa'']
       = Inr [''https://img.example/fone na mesa'']
   \<and> generateNanoBananaImages one_failure_env 1 [''fone na caixa'']
       = Inl (Rejected ''render failed'')
   \<and> map_option (map_sum id nanoBananaImages) (POST one_failure_env example_request)
       = Some (Inr None)"
  by code_simp

section \<open>C2: a corrected FAQ, split back into heading and body\<close>

lemma split_on_no_separator: "c \<notin> set s \<Longrightarrow> split_on c s = [s]"
  by (induction s) auto

lemma split_on_first: "c \<notin> set h \<Longrightarrow> split_on c (h @ c # b) = h # split_on c b"
  by (induction h) auto

lemma split_on_not_Nil: "split_on c s \<noteq> []"
  by (induction s) (auto split: list.splits)

text \<open>Splitting and joining again gives the text back.\<close>

lemma join_split_on: "join [c] (split_on c s) = s"
proof (induction s)
  case Nil
  show ?case by simp
next
  case (Cons x xs)
  obtain piece pieces where ps: "split_on c xs = piece # pieces"
    using split_on_not_Nil [of c xs] by (cases "split_on c xs") auto
  show ?case
  proof (cases "x = c")
    case True
    with Cons ps show ?thesis by simp
  next
    case False
    with Cons ps show ?thesis by (cases pieces) auto
  qed
qed

text \<open>
  Claim C2, as the code has it. For every FAQ entry, the corrected string (the empty
  string when the checker returned none at that index) is split at its first newline:
  what precedes it becomes the heading and what follows becomes the body, an empty part
  leaving the original heading or body in place. A corrected string without a newline
  becomes the heading (unless it is empty) and the original body is kept.
\<close>

theorem faq_split_at_first_newline:
  assumes "nth_or correctedFaqs index [] = c"
  shows "(\<forall>h b. c = h @ newline # b \<and> newline \<notin> set h \<longrightarrow>
            merge_faq correctedFaqs (index, faq) =
              \<lparr>heading = (if h = [] then heading faq else h),
               body = (if b = [] then body faq else b)\<rparr>)
       \<and> (newline \<notin> set c \<longrightarrow>
            merge_faq correctedFaqs (index, faq) =
              \<lparr>heading = (if c = [] then heading faq else c), body = body faq\<rparr>)"
proof (intro conjI allI impI)
  fix h b
  assume "c = h @ newline # b \<and> newline \<notin> set h"
  then have "split_on newline c = h # split_on newline b"
    by (simp add: split_on_first)
  with assms show "merge_faq correctedFaqs (index, faq) =
      \<lparr>heading = (if h = [] then heading faq else h),
       body = (if b = [] then body faq else b)\<rparr>"
    by (simp add: merge_faq_def join_split_on)
next
  assume "newline \<notin> set c"
  then have "split_on newline c = [c]" by (rule split_on_no_separator)
  with assms show "merge_faq correctedFaqs (index, faq) =
      \<lparr>heading = (if c = [] then heading faq else c), body = body faq\<rparr>"
    by (simp add: merge_faq_def)
qed

theorem faq_split_at_first_newline_witness:
  "merge_faq [''Vale a pena?'' @ [newline] @ ''Sim.'' @ [newline] @ ''Muito.'']
     (0, \<lparr>heading = ''Vale?'', body = ''Sim''\<rparr>)
     = \<lparr>heading = ''Vale a pena?'', body = ''Sim.'' @ [newline] @ ''Muito.''\<rparr>
   \<and> merge_faq [''Vale a pena?''] (0, \<lparr>heading = ''Vale?'', body = ''Sim''\<rparr>)
     = \<lparr>heading = ''Vale a pena?'', body = ''Sim''\<rparr>"
proof -
  have c1: "nth_or [''Vale a pena?'' @ [newline] @ ''Sim.'' @ [newline] @ ''Muito.''] 0 []
            = ''Vale a pena?'' @ newline # (''Sim.'' @ [newline] @ ''Muito.'')"
    by (simp add: nth_or_def)
  have c2: "nth_or [''Vale a pena?''] 0 [] = ''Vale a pena?''"
    by (simp add: nth_or_def)
  have n1: "newline \<notin> set ''Vale a pena?''"
    by (simp add: newline_def)
  have "merge_faq [''Vale a pena?'' @ [newline] @ ''Sim.'' @ [newline] @ ''Muito.'']
     (0, \<lparr>heading = ''Vale?'', body = ''Sim''\<rparr>)
     = \<lparr>heading = ''Vale a pena?'', body = ''Sim.'' @ [newline] @ ''Muito.''\<rparr>"
    using faq_split_at_first_newline [OF c1, of "\<lparr>heading = ''Vale?'', body = ''Sim''\<rparr>",
        THEN conjunct1, rule_format, of "''Vale a pena?''" "''Sim.'' @ [newline] @ ''Muito.''"] n1
    by simp
  moreover
  have "merge_faq [''Vale a pena?''] (0, \<lparr>heading = ''Vale?'', body = ''Sim''\<rparr>)
     = \<lparr>heading = ''Vale a pena?'', body = ''Sim''\<rparr>"
    using faq_split_at_first_newline [OF c2, of "\<lparr>heading = ''Vale?'', body = ''Sim''\<rparr>",
        THEN conjunct2, rule_format] n1
    by simp
  ultimately show ?thesis by simp
qed

text \<open>
  Claim C2 as stated fails on a corrected string without a newline: the claim keeps the
  original heading and makes the corrected string the body, the code makes it the heading
  and keeps the original body.
\<close>

theorem corrected_faq_without_newline_becomes_heading:
  "newline \<notin> set ''Vale a pena?''
   \<and> merge_faq [''Vale a pena?''] (0, \<lparr>heading = ''Vale?'', body = ''Sim''\<rparr>)
       = \<lparr>heading = ''Vale a pena?'', body = ''Sim''\<rparr>
   \<and> merge_faq [''Vale a pena?''] (0, \<lparr>heading = ''Vale?'', body = ''Sim''\<rparr>)
       \<noteq> \<lparr>heading = ''Vale?'', body = ''Vale a pena?''\<rparr>"
  by code_simp

section \<open>C3: a failed render call does not fail the request\<close>

text \<open>
  Claim C3. Take a request that asks for images and whose fatal stages all succeed (the
  scraper, the draft, the six spell checks). If at least one render call is rejected,
  the image stage yields no images, and the handler still answers with a response, which
  has no \<^verbatim>\<open>nanoBananaImages\<close> field.
\<close>

theorem render_failure_is_not_fatal:
  assumes scrape: "scrapeProductSnapshot env (productUrl input) = Inr productData"
    and parsed: "assembleArticle env (productUrl input) input productData = Inr parsed"
    and draft: "as_GeneratedArticle parsed = Some draft"
    and sections: "spellcheckSections env (map body (sections draft)) (targetLanguage input) = Inr sectionCheck"
    and faqs: "(if faqs draft = [] then Inr \<lparr>corrected = [], adjustments = []\<rparr>
                else spellcheckSections env (map faq_text (faqs draft)) (targetLanguage input))
               = Inr faqCheck"
    and title: "runSpellcheck env (title draft) (targetLanguage input) = Inr titleCheck"
    and meta: "runSpellcheck env (metaDescription draft) (targetLanguage input) = Inr metaCheck"
    and excerpt: "runSpellcheck env (excerpt draft) (targetLanguage input) = Inr excerptCheck"
    and cta: "runSpellcheck env (callToAction draft) (targetLanguage input) = Inr ctaCheck"
    and requested: "includeImages input"
    and call: "k < length (imagePrompts draft)"
    and failed: "generateNanoBananaImages env k [imagePrompts draft ! k] = Inl e"
  shows "image_stage env input draft = []
         \<and> (\<exists>resp. POST env input = Some (Inr resp) \<and> nanoBananaImages resp = None)"
proof -
  have none: "image_stage env input draft = []"
    using call failed by (rule image_stage_failed_call)
  obtain resp where run: "orchestrate env input productData draft = Inr resp"
    using orchestrate_succeeds [OF sections faqs title meta excerpt cta] by blast
  then have "nanoBananaImages resp = None"
    using none by (simp add: orchestrate_nanoBananaImages)
  moreover have "POST env input = Some (Inr resp)"
    using scrape parsed draft run by (rule POST_succeeds)
  ultimately show ?thesis using none by blast
qed

theorem render_failure_is_not_fatal_witness:
  "generateNanoBananaImages one_failure_env 1 [imagePrompts example_draft ! 1]
     = Inl (Rejected ''render failed'')
   \<and> image_stage one_failure_env example_request example_draft = []
   \<and> (\<exists>resp. POST one_failure_env example_request = Some (Inr resp)
            \<and> nanoBananaImages resp = None)"
proof -
  obtain parsed where
    parsed: "assembleArticle one_failure_env (productUrl example_request) example_request
               ''snapshot of https://example.com/p'' = Inr parsed"
    and draft: "as_GeneratedArticle parsed = Some example_draft"
    using one_failure_draft by blast
  have scrape: "scrapeProductSnapshot one_failure_env (productUrl example_request)
                = Inr ''snapshot of https://example.com/p''"
    by (simp add: one_failure_env_def example_env_def example_request_def)
  have sections: "spellcheckSections one_failure_env (map body (sections example_draft))
                    (targetLanguage example_request)
                  = Inr \<lparr>corrected = [''Grave forte''], adjustments = [''block: Grave forte'']\<rparr>"
    by (simp add: one_failure_env_def example_env_def example_draft_def)
  have faqs: "(if faqs example_draft = [] then Inr \<lparr>corrected = [], adjustments = []\<rparr>
               else spellcheckSections one_failure_env (map faq_text (faqs example_draft))
                      (targetLanguage example_request))
              = Inr \<lparr>corrected = [''Vale?'' @ [newline] @ ''Sim''],
                     adjustments = [''block: Vale?'' @ [newline] @ ''Sim'']\<rparr>"
    by (simp add: one_failure_env_def example_env_def example_draft_def faq_text_def)
  have title: "runSpellcheck one_failure_env (title example_draft) (targetLanguage example_request)
               = Inr \<lparr>corrected = '' Fone X '', adjustments = [''text:  Fone X '']\<rparr>"
    by (simp add: one_failure_env_def example_env_def example_draft_def)
  have meta: "runSpellcheck one_failure_env (metaDescription example_draft) (targetLanguage example_request)
               = Inr \<lparr>corrected = ''Review do Fone X'', adjustments = [''text: Review do Fone X'']\<rparr>"
    by (simp add: one_failure_env_def example_env_def example_draft_def)
  have excerpt: "runSpellcheck one_failure_env (excerpt example_draft) (targetLanguage example_request)
               = Inr \<lparr>corrected = ''Resumo'', adjustments = [''text: Resumo'']\<rparr>"
    by (simp add: one_failure_env_def example_env_def example_draft_def)
  have cta: "runSpellcheck one_failure_env (callToAction example_draft) (targetLanguage example_request)
               = Inr \<lparr>corrected = ''Compre'', adjustments = [''text: Compre'']\<rparr>"
    by (simp add: one_failure_env_def example_env_def example_draft_def)
  have requested: "includeImages example_request"
    by (simp add: example_request_def)
  have call: "1 < length (imagePrompts example_draft)"
    by (simp add: example_draft_def)
  have failed: "generateNanoBananaImages one_failure_env 1 [imagePrompts example_draft ! 1]
                = Inl (Rejected ''render failed'')"
    by (simp add: one_failure_env_def)
  show ?thesis
    using failed
      render_failure_is_not_fatal [OF scrape parsed draft sections faqs title meta excerpt cta
        requested call failed]
    by simp
qed

section \<open>C4: presence of the image list\<close>

text \<open>
  An image client that answers a call with an empty array: the call returns, the entry of
  the list is \<^verbatim>\<open>undefined\<close>, and the response has the field.
\<close>

lemma empty_render_result_is_listed:
  "map_option (map_sum id nanoBananaImages) (POST empty_result_env example_request)
     = Some (Inr (Some [None, None]))"
  by code_simp

text \<open>
  Claim C4, as the code has it. In every response the handler returns, a request with
  \<^verbatim>\<open>includeImages\<close> false never has the field \<^verbatim>\<open>nanoBananaImages\<close>. When no render
  call answers with an empty array, the field is present exactly when images were
  requested, the draft has a prompt and every render call returned: one rejected call
  leaves the field out, whatever the other calls rendered. The field then holds one image
  for each prompt, the first of those the image client returned for it.
\<close>

theorem image_list_present_iff_all_rendered:
  assumes "POST env input = Some (Inr resp)"
  shows "\<exists>productData parsed draft.
           scrapeProductSnapshot env (productUrl input) = Inr productData
         \<and> assembleArticle env (productUrl input) input productData = Inr parsed
         \<and> as_GeneratedArticle parsed = Some draft
         \<and> (\<not> includeImages input \<longrightarrow> nanoBananaImages resp = None)
         \<and> ((\<forall>k<length (imagePrompts draft).
                generateNanoBananaImages env k [imagePrompts draft ! k] \<noteq> Inr [])
            \<longrightarrow> (nanoBananaImages resp \<noteq> None \<longleftrightarrow>
                   includeImages input \<and> imagePrompts draft \<noteq> []
                   \<and> (\<forall>k<length (imagePrompts draft).
                        \<exists>res. generateNanoBananaImages env k [imagePrompts draft ! k] = Inr res))
               \<and> (\<forall>images. nanoBananaImages resp = Some images \<longrightarrow>
                     length images = length (imagePrompts draft)
                     \<and> (\<forall>k<length (imagePrompts draft).
                           \<exists>img rest.
                             generateNanoBananaImages env k [imagePrompts draft ! k]
                               = Inr (img # rest)
                             \<and> images ! k = Some img)))"
proof -
  from assms obtain productData parsed draft where
    pre: "scrapeProductSnapshot env (productUrl input) = Inr productData"
         "assembleArticle env (productUrl input) input productData = Inr parsed"
         "as_GeneratedArticle parsed = Some draft"
    and run: "orchestrate env input productData draft = Inr resp"
    by (rule POST_Inr_cases)
  from run have field: "nanoBananaImages resp =
      (if image_stage env input draft = [] then None else Some (image_stage env input draft))"
    by (simp add: orchestrate_nanoBananaImages)
  from field have off: "\<not> includeImages input \<longrightarrow> nanoBananaImages resp = None"
    by (simp add: image_stage_off)
  from field have "nanoBananaImages resp \<noteq> None \<longleftrightarrow> image_stage env input draft \<noteq> []"
    by simp
  then have iff: "nanoBananaImages resp \<noteq> None \<longleftrightarrow>
      includeImages input \<and> imagePrompts draft \<noteq> []
      \<and> (\<forall>k<length (imagePrompts draft).
           \<exists>res. generateNanoBananaImages env k [imagePrompts draft ! k] = Inr res)"
    by (simp only: image_stage_nonempty_iff)
  have entries: "length images = length (imagePrompts draft)
      \<and> (\<forall>k<length (imagePrompts draft).
            \<exists>img rest. generateNanoBananaImages env k [imagePrompts draft ! k] = Inr (img # rest)
              \<and> images ! k = Some img)"
    if filled: "\<forall>k<length (imagePrompts draft).
                  generateNanoBananaImages env k [imagePrompts draft ! k] \<noteq> Inr []"
      and present: "nanoBananaImages resp = Some images" for images
  proof -
    from field present have stage: "image_stage env input draft \<noteq> []"
      "images = image_stage env input draft"
      by (auto split: if_splits)
    from image_stage_entries [OF stage(1)] stage(2)
    have len: "length images = length (imagePrompts draft)"
      and each: "\<forall>k<length (imagePrompts draft).
            \<exists>res. generateNanoBananaImages env k [imagePrompts draft ! k] = Inr res
              \<and> images ! k = (case res of [] \<Rightarrow> None | img # _ \<Rightarrow> Some img)"
      by simp_all
    have "\<exists>img rest. generateNanoBananaImages env k [imagePrompts draft ! k] = Inr (img # rest)
            \<and> images ! k = Some img"
      if k: "k < length (imagePrompts draft)" for k
    proof -
      from each k obtain res where
        res: "generateNanoBananaImages env k [imagePrompts draft ! k] = Inr res"
        and entry: "images ! k = (case res of [] \<Rightarrow> None | img # _ \<Rightarrow> Some img)"
        by blast
      from filled k res have "res \<noteq> []" by auto
      then obtain img rest where "res = img # rest" by (cases res) simp_all
      with res entry show ?thesis by simp
    qed
    with len show ?thesis by blast
  qed
  from pre off iff entries show ?thesis by blast
qed

theorem image_list_present_iff_all_rendered_witness:
  "POST example_env example_request = Some (Inr (response_of (POST example_env example_request)))
   \<and> generateNanoBananaImages example_env 0 [''fone na mesa'']
       = Inr [''https://img.example/fone na mesa'']
   \<and> generateNanoBananaImages example_env 1 [''fone na caixa'']
       = Inr [''https://img.example/fone na caixa'']
   \<and> nanoBananaImages (response_of (POST example_env example_request)) =
       Some [Some ''https://img.example/fone na mesa'', Some ''https://img.example/fone na caixa'']
   \<and> POST example_env no_images_request = Some (Inr (response_of (POST example_env no_images_request)))
   \<and> nanoBananaImages (response_of (POST example_env no_images_request)) = None"
proof -
  have run: "POST example_env example_request
             = Some (Inr (response_of (POST example_env example_request)))"
    using example_run_succeeded by (rule succeeded_response)
  have run_off: "POST example_env no_images_request
             = Some (Inr (response_of (POST example_env no_images_request)))"
    using no_images_run_succeeded by (rule succeeded_response)
  have filled: "\<forall>k<length (imagePrompts example_draft).
      generateNanoBananaImages example_env k [imagePrompts example_draft ! k] \<noteq> Inr []"
    by (simp add: example_env_def)
  have returned: "\<forall>k<length (imagePrompts example_draft).
      \<exists>res. generateNanoBananaImages example_env k [imagePrompts example_draft ! k] = Inr res"
    by (simp add: example_env_def)
  have requested: "includeImages example_request" "imagePrompts example_draft \<noteq> []"
    by (simp_all add: example_request_def example_draft_def)
  have calls: "generateNanoBananaImages example_env 0 [imagePrompts example_draft ! 0]
                 = Inr [''https://img.example/fone na mesa'']"
    "generateNanoBananaImages example_env 1 [imagePrompts example_draft ! 1]
                 = Inr [''https://img.example/fone na caixa'']"
    by (simp_all add: example_env_def example_draft_def)
  from image_list_present_iff_all_rendered [OF run]
  obtain productData parsed draft where
    pre: "scrapeProductSnapshot example_env (productUrl example_request) = Inr productData"
      "assembleArticle example_env (productUrl example_request) example_request productData = Inr parsed"
      "as_GeneratedArticle parsed = Some draft"
    and rest: "(\<forall>k<length (imagePrompts draft).
                generateNanoBananaImages example_env k [imagePrompts draft ! k] \<noteq> Inr [])
            \<longrightarrow> (nanoBananaImages (response_of (POST example_env example_request)) \<noteq> None \<longleftrightarrow>
                   includeImages example_request \<and> imagePrompts draft \<noteq> []
                   \<and> (\<forall>k<length (imagePrompts draft).
                        \<exists>res. generateNanoBananaImages example_env k [imagePrompts draft ! k] = Inr res))
               \<and> (\<forall>images. nanoBananaImages (response_of (POST example_env example_request)) = Some images \<longrightarrow>
                     length images = length (imagePrompts draft)
                     \<and> (\<forall>k<length (imagePrompts draft).
                           \<exists>img rest.
                             generateNanoBananaImages example_env k [imagePrompts draft ! k]
                               = Inr (img # rest)
                             \<and> images ! k = Some img))"
    by blast
  have draft: "draft = example_draft" using pre by (rule example_draft_unique)
  from rest filled returned requested
  have present: "nanoBananaImages (response_of (POST example_env example_request)) \<noteq> None"
    and entries: "\<forall>images. nanoBananaImages (response_of (POST example_env example_request)) = Some images \<longrightarrow>
                     length images = length (imagePrompts example_draft)
                     \<and> (\<forall>k<length (imagePrompts example_draft).
                           \<exists>img rest.
                             generateNanoBananaImages example_env k [imagePrompts example_draft ! k]
                               = Inr (img # rest)
                             \<and> images ! k = Some img)"
    unfolding draft by blast+
  have two: "length (imagePrompts example_draft) = 2"
    by (simp add: example_draft_def)
  have listed: "images = [Some ''https://img.example/fone na mesa'',
                          Some ''https://img.example/fone na caixa'']"
    if "nanoBananaImages (response_of (POST example_env example_request)) = Some images"
    for images
  proof -
    from entries that have len: "length images = 2"
      and each: "\<forall>k<2. \<exists>img rest.
                   generateNanoBananaImages example_env k [imagePrompts example_draft ! k]
                     = Inr (img # rest)
                   \<and> images ! k = Some img"
      using two by auto
    from each have "\<exists>img rest.
        generateNanoBananaImages example_env 0 [imagePrompts example_draft ! 0] = Inr (img # rest)
        \<and> images ! 0 = Some img"
      by simp
    with calls(1) have zero: "images ! 0 = Some ''https://img.example/fone na mesa''"
      by auto
    from each have "\<exists>img rest.
        generateNanoBananaImages example_env 1 [imagePrompts example_draft ! 1] = Inr (img # rest)
        \<and> images ! 1 = Some img"
      by simp
    with calls(2) have one: "images ! 1 = Some ''https://img.example/fone na caixa''"
      by auto
    from zero one have "images ! 0 = Some ''https://img.example/fone na mesa''"
      "images ! 1 = Some ''https://img.example/fone na caixa''"
      by simp_all
    with len show ?thesis
      by (cases images; cases "tl images"; cases "tl (tl images)") auto
  qed
  have "\<not> includeImages no_images_request"
    by (simp add: no_images_request_def)
  with image_list_present_iff_all_rendered [OF run_off]
  have off: "nanoBananaImages (response_of (POST example_env no_images_request)) = None"
    by blast
  from present obtain images where
    "nanoBananaImages (response_of (POST example_env example_request)) = Some images"
    by blast
  with listed have on: "nanoBananaImages (response_of (POST example_env example_request)) =
      Some [Some ''https://img.example/fone na mesa'', Some ''https://img.example/fone na caixa'']"
    by simp
  from calls have calls': "generateNanoBananaImages example_env 0 [''fone na mesa'']
       = Inr [''https://img.example/fone na mesa'']"
    "generateNanoBananaImages example_env 1 [''fone na caixa'']
       = Inr [''https://img.example/fone na caixa'']"
    by (simp_all add: example_draft_def)
  from run calls' on run_off off show ?thesis by simp
qed

text \<open>
  Claim C4 as stated fails: two prompts, the first call rejected, the second rendered,
  and the response has no image list although an image was rendered.
\<close>

theorem rendered_image_without_image_list:
  "map_option (map_sum id (imagePrompts \<circ> article)) (POST first_failure_env example_request)
     = Some (Inr [''fone na mesa'', ''fone na caixa''])
   \<and> generateNanoBananaImages first_failure_env 0 [''fone na mesa'']
       = Inl (Rejected ''render failed'')
   \<and> generateNanoBananaImages first_failure_env 1 [''fone na caixa'']
       = Inr [''https://img.example/fone na caixa'']
   \<and> map_option (map_sum id nanoBananaImages) (POST first_failure_env example_request)
       = Some (Inr None)"
  by code_simp

section \<open>C5: the fields of the draft\<close>

lemma get_prop_set_prop:
  "get_prop (set_prop k v obj) k' = (if k' = k then Some v else get_prop obj k')"
  by (cases obj) (simp_all add: get_prop_def update_conv')

lemma get_prop_normalize_list_field:
  "get_prop (normalize_list_field k obj) k' =
     (if k' = k then Some (array_or_empty (get_prop obj k)) else get_prop obj k')"
  by (simp add: normalize_list_field_def get_prop_set_prop)

lemma get_prop_normalize_text_field:
  "get_prop (normalize_text_field k obj) k' =
     (if k' = k then Some (string_if_nullish (get_prop obj k)) else get_prop obj k')"
  by (simp add: normalize_text_field_def get_prop_set_prop)

lemma array_or_empty_case:
  "array_or_empty v = (case v of Some (JArr xs) \<Rightarrow> JArr xs | _ \<Rightarrow> JArr [])"
  by (cases v rule: array_or_empty.cases) simp_all

lemma string_if_nullish_case:
  "string_if_nullish v = (case v of None \<Rightarrow> JStr [] | Some JNull \<Rightarrow> JStr [] | Some w \<Rightarrow> w)"
  by (cases v rule: string_if_nullish.cases) simp_all

lemma normalize_parsed_not_object:
  "as_object parsed = None \<Longrightarrow> normalize_parsed parsed = Inl TypeError"
  by (simp add: normalize_parsed_def)

lemma array_or_empty_is_array: "\<exists>xs. array_or_empty v = JArr xs"
  by (cases v rule: array_or_empty.cases) simp_all

lemma string_if_nullish_not_null: "string_if_nullish v \<noteq> JNull"
  by (cases v rule: string_if_nullish.cases) simp_all

text \<open>
  What lines 104 to 116 do to a payload that parses to an object (an array included):
  each of \<^verbatim>\<open>sections\<close>, \<^verbatim>\<open>faqs\<close>, \<^verbatim>\<open>affiliateBlocks\<close>, \<^verbatim>\<open>imagePrompts\<close> is the
  payload's array, or the empty array when the payload has none or has something that is
  no array; each of \<^verbatim>\<open>callToAction\<close>, \<^verbatim>\<open>metaDescription\<close>, \<^verbatim>\<open>excerpt\<close>,
  \<^verbatim>\<open>title\<close>, \<^verbatim>\<open>slug\<close> is the payload's string, or the empty string when the payload
  has none or has \<^verbatim>\<open>null\<close>.
\<close>

lemma draft_fields_defaulted:
  assumes "as_object parsed = Some obj"
  shows "\<exists>draft. normalize_parsed parsed = Inr draft
         \<and> (\<forall>k\<in>set list_fields.
               get_prop draft k =
                 Some (case get_prop obj k of Some (JArr xs) \<Rightarrow> JArr xs | _ \<Rightarrow> JArr []))
         \<and> (\<forall>k\<in>set text_fields.
               (get_prop obj k = None \<or> get_prop obj k = Some JNull
                  \<longrightarrow> get_prop draft k = Some (JStr []))
               \<and> (\<forall>s. get_prop obj k = Some (JStr s) \<longrightarrow> get_prop draft k = Some (JStr s)))"
  using assms
  by (simp add: normalize_parsed_def list_fields_def text_fields_def
      get_prop_normalize_list_field get_prop_normalize_text_field
      array_or_empty_case [symmetric])

text \<open>
  Claim C5 says that every expected field that is absent or of the wrong shape is coerced
  to its empty default. The code does so for the list fields and not for the text fields:
  when the model answers \<^verbatim>\<open>{"title":42,"sections":"none"}\<close>, the payload parses, the
  drafting stage returns, the string under \<^verbatim>\<open>sections\<close> has become the empty array,
  and the number under \<^verbatim>\<open>title\<close> is still the number 42, so that what the stage returns
  is no \<^verbatim>\<open>GeneratedArticle\<close>.
\<close>

theorem text_field_of_wrong_shape_is_not_coerced:
  "JSON_parse wrong_shape_content
     = Some (JObj [(''title'', JNum ''42''), (''sections'', JStr ''none'')])
   \<and> map_sum id
       (\<lambda>draft. (get_prop draft ''sections'', get_prop draft ''title'', as_GeneratedArticle draft))
       (assembleArticle wrong_shape_env ''https://example.com/p'' example_request
          ''snapshot of https://example.com/p'')
     = Inr (Some (JArr []), Some (JNum ''42''), None)"
  by code_simp

section \<open>C6: the affiliate links of a configuration\<close>





lemma set_first_once:
  "n \<in> fst ` set ps \<Longrightarrow> length (filter (\<lambda>q. fst q = n) (set_first n v ps)) = 1"
proof (induction ps)
  case Nil
  then show ?case by simp
next
  case (Cons p ps)
  show ?case
  proof (cases "fst p = n")
    case True
    have "filter (\<lambda>q. fst q = n) (filter (\<lambda>q. fst q \<noteq> n) ps) = []"
      by (simp add: filter_empty_conv)
    with True show ?thesis by simp
  next
    case False
    with Cons.prems have "n \<in> fst ` set ps" by auto
    from Cons.IH [OF this] False show ?thesis by simp
  qed
qed

lemma searchParams_set_once:
  "length (filter (\<lambda>q. fst q = n) (searchParams (searchParams_set n v url))) = 1"
proof (cases "n \<in> fst ` set (searchParams url)")
  case True
  then show ?thesis by (simp add: searchParams_set_def set_first_once)
next
  case False
  then have "filter (\<lambda>q. fst q = n) (searchParams url) = []"
    by (auto simp: filter_empty_conv)
  with False show ?thesis by (simp add: searchParams_set_def)
qed

lemma searchParams_set_rest:
  "location (searchParams_set n v url) = location url"
  "fragment (searchParams_set n v url) = fragment url"
  by (simp_all add: searchParams_set_def)




lemma affiliate_loop_error:
  "affiliate_loop U target links config = Inl e \<Longrightarrow> e = TypeError"
  by (induction config arbitrary: links) (auto split: option.splits)


lemma buildAffiliateLinks_error:
  "buildAffiliateLinks U config target = Inl e \<Longrightarrow> e = TypeError"
  unfolding buildAffiliateLinks_def by (rule affiliate_loop_error)






section \<open>C7: the GEO highlights of the response\<close>

text \<open>
  Claim C7. Whenever the handler answers with a response, its \<^verbatim>\<open>geoHighlights\<close> are, in
  this order, the entry \<^verbatim>\<open>Optimized for <region> audience\<close>, the entry
  \<^verbatim>\<open>Keywords: \<close> followed by all keywords joined by a comma and a space in the order
  of the input, and then the notes, as a third entry, exactly when notes were supplied
  and are not empty.
\<close>

theorem geoHighlights_region_keywords_notes:
  assumes "POST env input = Some (Inr resp)"
  shows "geoHighlights resp =
           (case additionalNotes input of
              None \<Rightarrow>
                [''Optimized for '' @ targetRegion input @ '' audience'',
                 ''Keywords: '' @ join '', '' (seoKeywords input)]
            | Some notes \<Rightarrow>
                if notes = [] then
                  [''Optimized for '' @ targetRegion input @ '' audience'',
                   ''Keywords: '' @ join '', '' (seoKeywords input)]
                else
                  [''Optimized for '' @ targetRegion input @ '' audience'',
                   ''Keywords: '' @ join '', '' (seoKeywords input),
                   notes])"
proof -
  from assms obtain productData draft where
    "orchestrate env input productData draft = Inr resp"
    by (rule POST_Inr_cases)
  then have "geoHighlights resp = geoHighlights_of input"
    by (rule orchestrate_geoHighlights)
  then show ?thesis
    by (simp add: geoHighlights_of_def split: option.splits)
qed

text \<open>
  The scenario of the specification: keywords \<^verbatim>\<open>melhor preco\<close> (its c with a
  cedilla, written as the two bytes of its UTF-8 form) and \<^verbatim>\<open>review completo\<close>, region
  \<^verbatim>\<open>Brazil\<close>; without notes, with notes, and with notes that are the empty string.
\<close>

theorem geoHighlights_region_keywords_notes_witness:
  "POST example_env example_request = Some (Inr (response_of (POST example_env example_request)))
   \<and> geoHighlights (response_of (POST example_env example_request)) =
       [''Optimized for Brazil audience'',
        ''Keywords: melhor pre'' @ [CHR 0xC3, CHR 0xA7] @ ''o, review completo'']
   \<and> POST example_env notes_request = Some (Inr (response_of (POST example_env notes_request)))
   \<and> geoHighlights (response_of (POST example_env notes_request)) =
       [''Optimized for Brazil audience'',
        ''Keywords: melhor pre'' @ [CHR 0xC3, CHR 0xA7] @ ''o, review completo'',
        ''Destaque diferenciais locais'']
   \<and> POST example_env empty_notes_request
       = Some (Inr (response_of (POST example_env empty_notes_request)))
   \<and> geoHighlights (response_of (POST example_env empty_notes_request)) =
       [''Optimized for Brazil audience'',
        ''Keywords: melhor pre'' @ [CHR 0xC3, CHR 0xA7] @ ''o, review completo'']"
proof -
  have run: "POST example_env example_request
             = Some (Inr (response_of (POST example_env example_request)))"
    using example_run_succeeded by (rule succeeded_response)
  have run_notes: "POST example_env notes_request
             = Some (Inr (response_of (POST example_env notes_request)))"
    using notes_run_succeeded by (rule succeeded_response)
  have run_empty: "POST example_env empty_notes_request
             = Some (Inr (response_of (POST example_env empty_notes_request)))"
    using empty_notes_run_succeeded by (rule succeeded_response)
  show ?thesis
    using run run_notes run_empty
      geoHighlights_region_keywords_notes [OF run]
      geoHighlights_region_keywords_notes [OF run_notes]
      geoHighlights_region_keywords_notes [OF run_empty]
    by (simp add: example_request_def notes_request_def empty_notes_request_def)
qed

section \<open>C8: the order of the spelling adjustments\<close>

text \<open>
  Claim C8. Whenever the handler answers with a response, its \<^verbatim>\<open>spellingAdjustments\<close>
  are the adjustments the spell checker returned for the section bodies, then those for
  the FAQ texts (none when the draft has no FAQ: the checker is not called), then those
  for the title, the meta description, the excerpt and the call to action, concatenated
  in this order.
\<close>

theorem spellingAdjustments_stage_order:
  assumes "POST env input = Some (Inr resp)"
  shows "\<exists>productData parsed draft sectionCheck faqCheck titleCheck metaCheck excerptCheck ctaCheck.
           scrapeProductSnapshot env (productUrl input) = Inr productData
         \<and> assembleArticle env (productUrl input) input productData = Inr parsed
         \<and> as_GeneratedArticle parsed = Some draft
         \<and> spellcheckSections env (map body (sections draft)) (targetLanguage input) = Inr sectionCheck
         \<and> (if faqs draft = [] then Inr \<lparr>corrected = [], adjustments = []\<rparr>
             else spellcheckSections env (map faq_text (faqs draft)) (targetLanguage input))
            = Inr faqCheck
         \<and> runSpellcheck env (title draft) (targetLanguage input) = Inr titleCheck
         \<and> runSpellcheck env (metaDescription draft) (targetLanguage input) = Inr metaCheck
         \<and> runSpellcheck env (excerpt draft) (targetLanguage input) = Inr excerptCheck
         \<and> runSpellcheck env (callToAction draft) (targetLanguage input) = Inr ctaCheck
         \<and> spellingAdjustments resp =
             adjustments sectionCheck @ adjustments faqCheck @ adjustments titleCheck
             @ adjustments metaCheck @ adjustments excerptCheck @ adjustments ctaCheck"
proof -
  from assms obtain productData parsed draft where
    pre: "scrapeProductSnapshot env (productUrl input) = Inr productData"
         "assembleArticle env (productUrl input) input productData = Inr parsed"
         "as_GeneratedArticle parsed = Some draft"
    and run: "orchestrate env input productData draft = Inr resp"
    by (rule POST_Inr_cases)
  from run show ?thesis
  proof (rule orchestrate_Inr_cases)
    fix sectionCheck faqCheck titleCheck metaCheck excerptCheck ctaCheck
    assume "spellcheckSections env (map body (sections draft)) (targetLanguage input) = Inr sectionCheck"
      "(if faqs draft = [] then Inr \<lparr>corrected = [], adjustments = []\<rparr>
        else spellcheckSections env (map faq_text (faqs draft)) (targetLanguage input)) = Inr faqCheck"
      "runSpellcheck env (title draft) (targetLanguage input) = Inr titleCheck"
      "runSpellcheck env (metaDescription draft) (targetLanguage input) = Inr metaCheck"
      "runSpellcheck env (excerpt draft) (targetLanguage input) = Inr excerptCheck"
      "runSpellcheck env (callToAction draft) (targetLanguage input) = Inr ctaCheck"
      "spellingAdjustments resp =
         adjustments sectionCheck @ adjustments faqCheck @ adjustments titleCheck
         @ adjustments metaCheck @ adjustments excerptCheck @ adjustments ctaCheck"
    with pre show ?thesis by blast
  qed
qed

theorem spellingAdjustments_stage_order_witness:
  "POST example_env example_request = Some (Inr (response_of (POST example_env example_request)))
   \<and> spellingAdjustments (response_of (POST example_env example_request)) =
       [''block: Grave forte'', ''block: Vale?'' @ [newline] @ ''Sim'', ''text:  Fone X '',
        ''text: Review do Fone X'', ''text: Resumo'', ''text: Compre'']"
proof -
  have run: "POST example_env example_request
             = Some (Inr (response_of (POST example_env example_request)))"
    using example_run_succeeded by (rule succeeded_response)
  from spellingAdjustments_stage_order [OF run]
  obtain productData parsed draft sectionCheck faqCheck titleCheck metaCheck excerptCheck ctaCheck
    where pre: "scrapeProductSnapshot example_env (productUrl example_request) = Inr productData"
      "assembleArticle example_env (productUrl example_request) example_request productData = Inr parsed"
      "as_GeneratedArticle parsed = Some draft"
    and checks:
      "spellcheckSections example_env (map body (sections draft)) (targetLanguage example_request) = Inr sectionCheck"
      "(if faqs draft = [] then Inr \<lparr>corrected = [], adjustments = []\<rparr>
        else spellcheckSections example_env (map faq_text (faqs draft)) (targetLanguage example_request))
       = Inr faqCheck"
      "runSpellcheck example_env (title draft) (targetLanguage example_request) = Inr titleCheck"
      "runSpellcheck example_env (metaDescription draft) (targetLanguage example_request) = Inr metaCheck"
      "runSpellcheck example_env (excerpt draft) (targetLanguage example_request) = Inr excerptCheck"
      "runSpellcheck example_env (callToAction draft) (targetLanguage example_request) = Inr ctaCheck"
    and adj: "spellingAdjustments (response_of (POST example_env example_request)) =
         adjustments sectionCheck @ adjustments faqCheck @ adjustments titleCheck
         @ adjustments metaCheck @ adjustments excerptCheck @ adjustments ctaCheck"
    by blast
  have draft: "draft = example_draft"
    using pre by (rule example_draft_unique)
  from checks adj have
    "spellingAdjustments (response_of (POST example_env example_request)) =
       [''block: Grave forte'', ''block: Vale?'' @ [newline] @ ''Sim'', ''text:  Fone X '',
        ''text: Review do Fone X'', ''text: Resumo'', ''text: Compre'']"
    unfolding draft
    by (auto simp: example_env_def example_draft_def faq_text_def)
  with run show ?thesis by simp
qed

section \<open>C10: a completion without content\<close>

lemma default_content_parsed:
  "map_option normalize_parsed (JSON_parse default_content) = Some (Inr default_draft)"
  by code_simp

lemma default_draft_typed: "as_GeneratedArticle default_draft = Some empty_article"
  by code_simp

text \<open>
  Claim C10, as the code has it. When the completion call returns and its message content
  is missing (\<^verbatim>\<open>null\<close> or \<^verbatim>\<open>undefined\<close>), the drafting stage does not fail: the
  draft is the all-empty article, and the handler answers with a response whenever the
  spell checker accepts the empty list of sections and the empty text.
\<close>

theorem missing_content_defaults_to_empty_article:
  assumes scrape: "scrapeProductSnapshot env (productUrl input) = Inr productData"
    and client: "getOpenAIClient env = Inr create"
    and links: "buildAffiliateLinks (URL_impl env) (affiliateConfig input) (productUrl input) = Inr links"
    and missing: "create (completion_request_of env input links productData) = Inr None"
    and blocks: "spellcheckSections env [] (targetLanguage input) = Inr sectionCheck"
    and texts: "runSpellcheck env [] (targetLanguage input) = Inr textCheck"
  shows "assembleArticle env (productUrl input) input productData = Inr default_draft
         \<and> as_GeneratedArticle default_draft = Some empty_article
         \<and> (\<exists>resp. POST env input = Some (Inr resp)
                \<and> sections (article resp) = [] \<and> faqs (article resp) = []
                \<and> affiliateBlocks (article resp) = [] \<and> imagePrompts (article resp) = []
                \<and> nanoBananaImages resp = None)"
proof -
  have draft: "assembleArticle env (productUrl input) input productData = Inr default_draft"
    using client links missing default_content_parsed
    by (auto simp: assembleArticle_def split: option.splits)
  have run: "orchestrate env input productData empty_article =
      Inr \<lparr>product' = productData,
           article = empty_article\<lparr>sections := [], faqs := [],
                       title := trim (corrected textCheck),
                       metaDescription := trim (corrected textCheck),
                       excerpt := trim (corrected textCheck),
                       callToAction := trim (corrected textCheck)\<rparr>,
           spellingAdjustments =
             adjustments sectionCheck @ [] @ adjustments textCheck @ adjustments textCheck
             @ adjustments textCheck @ adjustments textCheck,
           geoHighlights = geoHighlights_of input,
           nanoBananaImages = None\<rparr>"
    using blocks texts
    by (simp add: orchestrate_def empty_article_def image_stage_no_prompts)
  have "POST env input = Some (orchestrate env input productData empty_article)"
    using scrape draft default_draft_typed by (simp add: POST_def)
  with run draft default_draft_typed show ?thesis
    by (simp add: empty_article_def)
qed

theorem missing_content_defaults_to_empty_article_witness:
  "assembleArticle missing_content_env (productUrl example_request) example_request
       ''snapshot of https://example.com/p'' = Inr default_draft
   \<and> as_GeneratedArticle default_draft = Some empty_article
   \<and> (\<exists>resp. POST missing_content_env example_request = Some (Inr resp)
          \<and> sections (article resp) = [] \<and> faqs (article resp) = []
          \<and> affiliateBlocks (article resp) = [] \<and> imagePrompts (article resp) = []
          \<and> nanoBananaImages resp = None)"
proof -
  have scrape: "scrapeProductSnapshot missing_content_env (productUrl example_request)
                = Inr ''snapshot of https://example.com/p''"
    by (simp add: missing_content_env_def example_env_def example_request_def)
  have client: "getOpenAIClient missing_content_env = Inr (\<lambda>request. Inr None)"
    by (simp add: missing_content_env_def)
  have links: "buildAffiliateLinks (URL_impl missing_content_env) (affiliateConfig example_request)
                 (productUrl example_request)
               = Inr [(''amazon'',
                       ''https://amzn.to/x?ref=tag123&target=https%3A%2F%2Fexample.com%2Fp'')]"
    by code_simp
  have missing: "(\<lambda>request. Inr None)
                   (completion_request_of missing_content_env example_request
                      [(''amazon'',
                        ''https://amzn.to/x?ref=tag123&target=https%3A%2F%2Fexample.com%2Fp'')]
                      ''snapshot of https://example.com/p'')
                 = (Inr None :: error + string option)"
    by simp
  have blocks: "spellcheckSections missing_content_env [] (targetLanguage example_request)
                = Inr \<lparr>corrected = [], adjustments = []\<rparr>"
    by (simp add: missing_content_env_def example_env_def)
  have texts: "runSpellcheck missing_content_env [] (targetLanguage example_request)
               = Inr \<lparr>corrected = [], adjustments = [''text: '']\<rparr>"
    by (simp add: missing_content_env_def example_env_def)
  show ?thesis
    using missing_content_defaults_to_empty_article [OF scrape client links missing blocks texts]
    by simp
qed

text \<open>
  Claim C10 as stated fails on empty content: \<^verbatim>\<open>??\<close> does not replace the empty
  string, \<^verbatim>\<open>JSON.parse("")\<close> throws, and the request fails with the parse error.
\<close>

theorem empty_content_fails_the_draft:
  "getOpenAIClient empty_content_env = Inr (\<lambda>request. Inr (Some []))
   \<and> trim [] = []
   \<and> JSON_parse [] = None
   \<and> POST empty_content_env example_request = Some (Inl DraftParseError)"
proof -
  have content: "getOpenAIClient empty_content_env = Inr (\<lambda>request. Inr (Some []))"
    by (simp add: empty_content_env_def)
  have outcome: "trim [] = [] \<and> JSON_parse [] = None
      \<and> POST empty_content_env example_request = Some (Inl DraftParseError)"
    by code_simp
  from content outcome show ?thesis by simp
qed

end
